theory Spec2Isabelle
  imports Complex_Main
begin

section \<open>Python numbers\<close>

text \<open>
  The module is Python 2 (it uses the \<^verbatim>\<open>print\<close> statement). The widget's numeric
  attributes hold Python 2 numbers: unbounded integers or floats. A float is
  idealised as a real (no rounding); an integer keeps its tag, because Python 2
  divides two integers with floor division (\<^verbatim>\<open>self.width / 4\<close>).
\<close>

datatype pynum = PInt int | PFloat real

datatype error = AttributeError | KeyError | ZeroDivisionError | GraphicException

fun val :: "pynum \<Rightarrow> real" where
  "val (PInt i) = of_int i"
| "val (PFloat r) = r"

text \<open>Python's \<^verbatim>\<open>==\<close>, \<^verbatim>\<open><=\<close> and \<^verbatim>\<open>>\<close> compare an integer and a float by value.\<close>

definition py_eq :: "pynum \<Rightarrow> pynum \<Rightarrow> bool" where
  "py_eq a b = (val a = val b)"

definition py_le :: "pynum \<Rightarrow> pynum \<Rightarrow> bool" where
  "py_le a b = (val a \<le> val b)"

definition py_gt :: "pynum \<Rightarrow> pynum \<Rightarrow> bool" where
  "py_gt a b = (val a > val b)"

fun py_add :: "pynum \<Rightarrow> pynum \<Rightarrow> pynum" where
  "py_add (PInt a) (PInt b) = PInt (a + b)"
| "py_add a b = PFloat (val a + val b)"

fun py_sub :: "pynum \<Rightarrow> pynum \<Rightarrow> pynum" where
  "py_sub (PInt a) (PInt b) = PInt (a - b)"
| "py_sub a b = PFloat (val a - val b)"

fun py_mul :: "pynum \<Rightarrow> pynum \<Rightarrow> pynum" where
  "py_mul (PInt a) (PInt b) = PInt (a * b)"
| "py_mul a b = PFloat (val a * val b)"

text \<open>Python 2 \<^verbatim>\<open>/\<close>: floor division on two integers, true division otherwise.\<close>

fun py_div :: "pynum \<Rightarrow> pynum \<Rightarrow> error + pynum" where
  "py_div (PInt a) (PInt b) = (if b = 0 then Inl ZeroDivisionError else Inr (PInt (a div b)))"
| "py_div a b = (if val b = 0 then Inl ZeroDivisionError else Inr (PFloat (val a / val b)))"

text \<open>\<^verbatim>\<open>math.fabs\<close> always returns a float.\<close>

definition fabs :: "pynum \<Rightarrow> pynum" where
  "fabs a = PFloat \<bar>val a\<bar>"

text \<open>Truthiness of a number: zero is false.\<close>

definition truthy :: "pynum \<Rightarrow> bool" where
  "truthy a = (val a \<noteq> 0)"

text \<open>Python's \<^verbatim>\<open>==\<close> on two sequences of numbers.\<close>

definition py_eq_list :: "pynum list \<Rightarrow> pynum list \<Rightarrow> bool" where
  "py_eq_list xs ys = (map val xs = map val ys)"

section \<open>Data model\<close>

text \<open>An entry of the class table \<^verbatim>\<open>_dash_styles\<close>.\<close>

record dash =
  dash_length :: int
  dash_offset :: int

definition dash_styles :: "string \<Rightarrow> dash option" where
  "dash_styles = map_of
     [(''dashed'', \<lparr>dash_length = 10, dash_offset = 5\<rparr>),
      (''dotted'', \<lparr>dash_length = 1, dash_offset = 1\<rparr>),
      (''solid'', \<lparr>dash_length = 1, dash_offset = 0\<rparr>)]"

definition CAP :: string where "CAP = ''square''"
definition JOINT :: string where "JOINT = ''miter''"

text \<open>
  Modelled from the spec: the outline primitive (\<^verbatim>\<open>kivy.graphics.Line\<close>, not part of
  the module) is "a stroke-rectangle primitive" whose "geometry and stroke width [are]
  updated in place": a holder of the attributes the module writes. Two behaviours of
  the toolkit's class reach the module and are kept: its constructor takes
  \<^verbatim>\<open>width or 1.0\<close>, and its \<^verbatim>\<open>width\<close> setter raises GraphicException for a value that
  is not positive.
\<close>

record line =
  line_rectangle :: "pynum list"
  line_width :: pynum
  line_cap :: string
  line_joint :: string
  line_dash_length :: int
  line_dash_offset :: int

text \<open>The constructor's \<^verbatim>\<open>width or 1.0\<close>: a zero width becomes \<open>1.0\<close>, any other is kept.\<close>

definition line_init_width :: "pynum \<Rightarrow> pynum" where
  "line_init_width w = (if truthy w then w else PFloat 1)"

text \<open>An assignment to \<^verbatim>\<open>line.width\<close>.\<close>

definition set_line_width :: "pynum \<Rightarrow> line \<Rightarrow> error + line" where
  "set_line_width v l =
     (if py_le v (PInt 0) then Inl GraphicException else Inr (l\<lparr>line_width := v\<rparr>))"

text \<open>What \<^verbatim>\<open>with self.canvas.after:\<close> has added to the after-content draw layer.\<close>

datatype instr = ColorInstr | LineInstr

type_synonym borders_value = "pynum \<times> string \<times> pynum list"

text \<open>
  The attributes of a \<^verbatim>\<open>BorderStyle\<close> instance. \<open>pos_x\<close>, \<open>pos_y\<close>, \<open>width\<close>,
  \<open>height\<close> are the host widget's \<^verbatim>\<open>pos\<close> and \<^verbatim>\<open>size\<close>. \<open>border_style\<close> and
  \<open>cur_dash_style\<close> are plain attributes with no class-level default: \<open>None\<close> until
  \<^verbatim>\<open>__init__\<close> assigns them. \<open>borders = None\<close> is the class default, a list holding
  the property objects themselves, which no assigned value equals.
  \<open>border_color_instr\<close> is \<^verbatim>\<open>self._border_color\<close>.
\<close>

record widget =
  pos_x :: pynum
  pos_y :: pynum
  width :: pynum
  height :: pynum
  border_width :: pynum
  border_style :: "string option"
  border_color :: "pynum list"
  borders :: "borders_value option"
  cur_dash_style :: "dash option"
  border_origin_x :: pynum
  border_origin_y :: pynum
  border_lines :: "line option"
  border_color_instr :: "pynum list option"
  INIT_STATE :: bool
  canvas_after :: "instr list"

section \<open>Drawing and origin handlers\<close>

text \<open>\<^verbatim>\<open>_draw_border\<close>: reading \<^verbatim>\<open>self.cur_dash_style\<close> before \<^verbatim>\<open>__init__\<close> has
  assigned it raises AttributeError.\<close>

definition draw_border :: "widget \<Rightarrow> error + widget" where
  "draw_border s =
     (case cur_dash_style s of
        None \<Rightarrow> Inl AttributeError
      | Some d \<Rightarrow>
          Inr (s\<lparr>border_color_instr := Some (border_color s),
                 border_lines := Some
                   \<lparr>line_rectangle = [PInt 0, PInt 0, PInt 0, PInt 0],
                    line_width = line_init_width (border_width s),
                    line_cap = CAP,
                    line_joint = JOINT,
                    line_dash_length = dash_length d,
                    line_dash_offset = dash_offset d\<rparr>,
                 canvas_after := canvas_after s @ [ColorInstr, LineInstr]\<rparr>))"

definition update_borders :: "widget \<Rightarrow> widget" where
  "update_borders s =
     (let w = border_width s;
          dbl_width = py_mul (PInt 2) w
      in case border_lines s of
           None \<Rightarrow> s
         | Some l \<Rightarrow>
             s\<lparr>border_lines := Some (l\<lparr>line_rectangle :=
                  [border_origin_x s,
                   border_origin_y s,
                   py_sub (width s) dbl_width,
                   py_sub (height s) dbl_width]\<rparr>)\<rparr>)"

definition on__border_origin :: "widget \<Rightarrow> error + widget" where
  "on__border_origin s =
     (let s1 = update_borders s
      in if \<not> INIT_STATE s1 then draw_border (s1\<lparr>INIT_STATE := True\<rparr>) else Inr s1)"

text \<open>
  Modelled from the spec: the reactive property system (\<^verbatim>\<open>kivy.properties\<close>, not part
  of the module). An assignment to a property stores the value and invokes the
  \<^verbatim>\<open>on_<name>\<close> callback synchronously "on any change": when the new value
  equals the stored one nothing is stored and nothing is invoked. A change of a
  component of \<^verbatim>\<open>_border_origin\<close> invokes \<^verbatim>\<open>on__border_origin\<close>.
\<close>

definition set_border_origin_x :: "pynum \<Rightarrow> widget \<Rightarrow> error + widget" where
  "set_border_origin_x v s =
     (if py_eq (border_origin_x s) v then Inr s
      else on__border_origin (s\<lparr>border_origin_x := v\<rparr>))"

definition set_border_origin_y :: "pynum \<Rightarrow> widget \<Rightarrow> error + widget" where
  "set_border_origin_y v s =
     (if py_eq (border_origin_y s) v then Inr s
      else on__border_origin (s\<lparr>border_origin_y := v\<rparr>))"

definition set_border_origin :: "widget \<Rightarrow> error + widget" where
  "set_border_origin s =
     (case set_border_origin_x (py_add (pos_x s) (border_width s)) s of
        Inl e \<Rightarrow> Inl e
      | Inr s1 \<Rightarrow> set_border_origin_y (py_add (pos_y s1) (border_width s1)) s1)"

definition on_pos :: "widget \<Rightarrow> error + widget" where
  "on_pos s = set_border_origin s"

text \<open>Assignment to \<^verbatim>\<open>pos\<close>: each component that differs is stored, then \<^verbatim>\<open>on_pos\<close>
  is invoked once.\<close>

definition set_pos :: "pynum \<times> pynum \<Rightarrow> widget \<Rightarrow> error + widget" where
  "set_pos v s =
     (if py_eq (pos_x s) (fst v) \<and> py_eq (pos_y s) (snd v) then Inr s
      else on_pos (s\<lparr>pos_x := (if py_eq (pos_x s) (fst v) then pos_x s else fst v),
                     pos_y := (if py_eq (pos_y s) (snd v) then pos_y s else snd v)\<rparr>))"

definition on_size :: "widget \<Rightarrow> error + widget" where
  "on_size s =
     (case set_border_origin s of
        Inl e \<Rightarrow> Inl e
      | Inr s1 \<Rightarrow>
          (case set_pos (border_origin_x s1, border_origin_y s1) s1 of
             Inl e \<Rightarrow> Inl e
           | Inr s2 \<Rightarrow>
               if \<not> INIT_STATE s2 then draw_border (s2\<lparr>INIT_STATE := True\<rparr>)
               else Inr s2))"

definition set_size :: "pynum \<times> pynum \<Rightarrow> widget \<Rightarrow> error + widget" where
  "set_size v s =
     (if py_eq (width s) (fst v) \<and> py_eq (height s) (snd v) then Inr s
      else on_size (s\<lparr>width := (if py_eq (width s) (fst v) then width s else fst v),
                      height := (if py_eq (height s) (snd v) then height s else snd v)\<rparr>))"

section \<open>The border width handler\<close>

text \<open>
  \<^verbatim>\<open>on_border_width\<close> and the assignment \<^verbatim>\<open>self.border_width = ...\<close> call each other:
  the clamping branch assigns the property whose change handler is running. Each of
  the three writes to \<^verbatim>\<open>self._border_lines.width\<close> goes through the line's setter; the
  first two are guarded (\<^verbatim>\<open>> 0\<close>, \<^verbatim>\<open>fabs\<close> of a non-zero value), the one of the
  clamping branch is not. (The two \<^verbatim>\<open>print\<close> statements write to standard output
  only and are left out.)
\<close>

function on_border_width :: "widget \<Rightarrow> error + widget"
  and set_border_width :: "pynum \<Rightarrow> widget \<Rightarrow> error + widget" where
  "on_border_width s =
     (case set_border_origin s of
        Inl e \<Rightarrow> Inl e
      | Inr s1 \<Rightarrow>
          (case py_div (width s1) (PInt 4) of
             Inl e \<Rightarrow> Inl e
           | Inr max_width \<Rightarrow>
               (case border_lines s1 of
                  None \<Rightarrow> Inr s1
                | Some l \<Rightarrow>
                    if py_le (border_width s1) max_width then
                      (if py_gt (border_width s1) (PInt 0) then
                         (case set_line_width (border_width s1) l of
                            Inl e \<Rightarrow> Inl e
                          | Inr l' \<Rightarrow> Inr (s1\<lparr>border_lines := Some l'\<rparr>))
                       else if \<not> py_eq (border_width s1) (PInt 0) then
                         (case set_line_width (fabs (border_width s1)) l of
                            Inl e \<Rightarrow> Inl e
                          | Inr l' \<Rightarrow> Inr (s1\<lparr>border_lines := Some l'\<rparr>))
                       else
                         Inr (s1\<lparr>border_lines := Some (l\<lparr>line_rectangle :=
                                   [PInt 0, PInt 0, PInt 0, PInt 0]\<rparr>)\<rparr>))
                    else
                      (case set_line_width max_width l of
                         Inl e \<Rightarrow> Inl e
                       | Inr l' \<Rightarrow>
                           set_border_width max_width (s1\<lparr>border_lines := Some l'\<rparr>)))))"
| "set_border_width v s =
     (if py_eq (border_width s) v then Inr s
      else on_border_width (s\<lparr>border_width := v\<rparr>))"
  by pat_completeness auto

section \<open>The aggregate and the constructor\<close>

text \<open>\<^verbatim>\<open>border_color\<close> is a property with no change callback in the class.\<close>

definition set_border_color :: "pynum list \<Rightarrow> widget \<Rightarrow> widget" where
  "set_border_color c s =
     (if py_eq_list (border_color s) c then s else s\<lparr>border_color := c\<rparr>)"

text \<open>\<^verbatim>\<open>on_borders\<close>: the tuple assignment stores its three targets from left to right;
  \<^verbatim>\<open>border_style\<close> is a plain attribute.\<close>

definition on_borders :: "borders_value \<Rightarrow> widget \<Rightarrow> error + widget" where
  "on_borders v s =
     (case v of (w, st, c) \<Rightarrow>
        (case set_border_width w s of
           Inl e \<Rightarrow> Inl e
         | Inr s1 \<Rightarrow>
             (let s2 = s1\<lparr>border_style := Some st\<rparr>;
                  s3 = set_border_color c s2
              in case dash_styles st of
                   None \<Rightarrow> Inl KeyError
                 | Some d \<Rightarrow> set_border_origin (s3\<lparr>cur_dash_style := Some d\<rparr>))))"

definition borders_eq :: "borders_value \<Rightarrow> borders_value \<Rightarrow> bool" where
  "borders_eq a b =
     (case a of (w, st, c) \<Rightarrow> case b of (w', st', c') \<Rightarrow>
        py_eq w w' \<and> st = st' \<and> py_eq_list c c')"

definition set_borders :: "borders_value \<Rightarrow> widget \<Rightarrow> error + widget" where
  "set_borders v s =
     (case borders s of
        None \<Rightarrow> on_borders v (s\<lparr>borders := Some v\<rparr>)
      | Some old \<Rightarrow>
          if borders_eq old v then Inr s else on_borders v (s\<lparr>borders := Some v\<rparr>))"

text \<open>The keyword arguments \<^verbatim>\<open>__init__\<close> reads; \<open>None\<close> is an absent (or \<^verbatim>\<open>None\<close>)
  argument.\<close>

record kwargs =
  kw_border_width :: "pynum option"
  kw_border_style :: "string option"
  kw_border_color :: "pynum list option"

text \<open>
  \<^verbatim>\<open>__init__\<close> after \<^verbatim>\<open>super(BorderStyle, self).__init__(**kwargs)\<close> has returned the
  state \<open>s\<close>. Each \<^verbatim>\<open>x if x else default\<close> tests truthiness: an absent argument, a zero
  width, an empty style and an empty color all take the default.
\<close>

definition init :: "kwargs \<Rightarrow> widget \<Rightarrow> error + widget" where
  "init kw s =
     (let bw = (case kw_border_width kw of
                  None \<Rightarrow> PFloat 1
                | Some v \<Rightarrow> if truthy v then v else PFloat 1)
      in case set_border_width bw s of
           Inl e \<Rightarrow> Inl e
         | Inr s1 \<Rightarrow>
             (let st = (case kw_border_style kw of
                          None \<Rightarrow> ''solid''
                        | Some t \<Rightarrow> if t \<noteq> [] then t else ''solid'');
                  s2 = s1\<lparr>border_style := Some st\<rparr>
              in case dash_styles st of
                   None \<Rightarrow> Inl KeyError
                 | Some d \<Rightarrow>
                     (let s3 = s2\<lparr>cur_dash_style := Some d\<rparr>;
                          col = (case kw_border_color kw of
                                   None \<Rightarrow> [PInt 1, PInt 1, PInt 1, PFloat 1]
                                 | Some c \<Rightarrow>
                                     if c \<noteq> [] then c
                                     else [PInt 1, PInt 1, PInt 1, PFloat 1])
                      in Inr (set_border_color col s3))))"

text \<open>
  The class-level attribute values (\<^verbatim>\<open>border_width = NumericProperty(1.)\<close> and the
  lines after it) of an instance on which nothing has been assigned yet. The host
  widget's initial position and size come from the base class and are parameters.
\<close>

definition new_widget :: "pynum \<Rightarrow> pynum \<Rightarrow> pynum \<Rightarrow> pynum \<Rightarrow> widget" where
  "new_widget px py w h =
     \<lparr>pos_x = px, pos_y = py, width = w, height = h,
      border_width = PFloat 1,
      border_style = None,
      border_color = [PInt 1, PInt 1, PInt 1, PInt 1],
      borders = None,
      cur_dash_style = None,
      border_origin_x = PFloat 0,
      border_origin_y = PFloat 0,
      border_lines = None,
      border_color_instr = None,
      INIT_STATE = False,
      canvas_after = []\<rparr>"

text \<open>
  Modelled from the spec: the base-class constructor reached by
  \<^verbatim>\<open>super(BorderStyle, self).__init__(**kwargs)\<close> is not part of the module. The
  configuration is "initialized from constructor arguments": the base constructor
  assigns every keyword argument that names a property, here \<^verbatim>\<open>border_width\<close> and
  \<^verbatim>\<open>border_color\<close>, through the property system, with the change callbacks already
  bound. \<^verbatim>\<open>border_style\<close> is not a property and is left to \<^verbatim>\<open>__init__\<close>.
\<close>

definition base_init :: "kwargs \<Rightarrow> widget \<Rightarrow> error + widget" where
  "base_init kw s =
     (case (case kw_border_width kw of
              None \<Rightarrow> Inr s
            | Some v \<Rightarrow> set_border_width v s) of
        Inl e \<Rightarrow> Inl e
      | Inr s1 \<Rightarrow>
          Inr (case kw_border_color kw of
                 None \<Rightarrow> s1
               | Some c \<Rightarrow> set_border_color c s1))"

text \<open>\<^verbatim>\<open>BorderStyle(**kwargs)\<close> on a host widget at \<open>(px, py)\<close> of size \<open>(w, h)\<close>.\<close>

definition construct :: "kwargs \<Rightarrow> pynum \<Rightarrow> pynum \<Rightarrow> pynum \<Rightarrow> pynum \<Rightarrow> error + widget" where
  "construct kw px py w h =
     (case base_init kw (new_widget px py w h) of
        Inl e \<Rightarrow> Inl e
      | Inr s \<Rightarrow> init kw s)"

section \<open>Events on a constructed widget\<close>

text \<open>
  What can happen to a widget after construction: an assignment to one of its
  properties, or the property system invoking one of the callbacks. An exception
  that leaves a callback is not caught anywhere in the module; a run stops there.
\<close>

datatype event =
    SetBorderWidth pynum
  | SetBorders borders_value
  | SetBorderColor "pynum list"
  | SetPos "pynum \<times> pynum"
  | SetSize "pynum \<times> pynum"
  | OnSize
  | OnPos
  | OnBorderOrigin
  | OnBorderWidth
  | OnBorders borders_value

fun fire :: "event \<Rightarrow> widget \<Rightarrow> error + widget" where
  "fire (SetBorderWidth v) s = set_border_width v s"
| "fire (SetBorders v) s = set_borders v s"
| "fire (SetBorderColor c) s = Inr (set_border_color c s)"
| "fire (SetPos v) s = set_pos v s"
| "fire (SetSize v) s = set_size v s"
| "fire OnSize s = on_size s"
| "fire OnPos s = on_pos s"
| "fire OnBorderOrigin s = on__border_origin s"
| "fire OnBorderWidth s = on_border_width s"
| "fire (OnBorders v) s = on_borders v s"

fun run :: "event list \<Rightarrow> widget \<Rightarrow> error + widget" where
  "run [] s = Inr s"
| "run (e # es) s = (case fire e s of Inl err \<Rightarrow> Inl err | Inr s' \<Rightarrow> run es s')"

section \<open>Predicates for the statements\<close>

text \<open>The stored width exceeds a quarter of the widget's width: the clamping case.\<close>

definition over_quarter :: "pynum \<Rightarrow> widget \<Rightarrow> bool" where
  "over_quarter v s =
     (case py_div (width s) (PInt 4) of Inl e \<Rightarrow> False | Inr m \<Rightarrow> \<not> py_le v m)"

text \<open>The geometry \<^verbatim>\<open>_update_borders\<close> writes, and the collapsed rectangle.\<close>

definition outline_rect :: "widget \<Rightarrow> pynum list" where
  "outline_rect s =
     [border_origin_x s, border_origin_y s,
      py_sub (width s) (py_mul (PInt 2) (border_width s)),
      py_sub (height s) (py_mul (PInt 2) (border_width s))]"

definition zero_rect :: "pynum list" where
  "zero_rect = [PInt 0, PInt 0, PInt 0, PInt 0]"

text \<open>The draw primitive exists: the line has been created and the flag set with it.\<close>

definition has_border :: "widget \<Rightarrow> bool" where
  "has_border s = (INIT_STATE s \<and> border_lines s \<noteq> None)"

text \<open>
  What holds of a widget once \<^verbatim>\<open>__init__\<close> has returned: the dash style is set, and
  the color instruction, the line and the two entries of the draw layer exist
  together with the flag, or not at all.
\<close>

definition border_inv :: "widget \<Rightarrow> bool" where
  "border_inv s =
     (cur_dash_style s \<noteq> None \<and>
      (if INIT_STATE s
       then border_lines s \<noteq> None \<and> border_color_instr s \<noteq> None \<and>
            canvas_after s = [ColorInstr, LineInstr]
       else border_lines s = None \<and> border_color_instr s = None \<and> canvas_after s = []))"

text \<open>No keyword arguments.\<close>

definition no_kwargs :: kwargs where
  "no_kwargs = \<lparr>kw_border_width = None, kw_border_style = None, kw_border_color = None\<rparr>"

text \<open>\<^verbatim>\<open>BorderStyle()\<close> on a host widget at \<open>(0, 0)\<close> of size \<open>(100, 100)\<close>.\<close>

definition default_widget :: widget where
  "default_widget =
     \<lparr>pos_x = PInt 0, pos_y = PInt 0, width = PInt 100, height = PInt 100,
      border_width = PFloat 1, border_style = Some ''solid'',
      border_color = [PInt 1, PInt 1, PInt 1, PInt 1], borders = None,
      cur_dash_style = Some \<lparr>dash_length = 1, dash_offset = 0\<rparr>,
      border_origin_x = PFloat 0, border_origin_y = PFloat 0,
      border_lines = None, border_color_instr = None, INIT_STATE = False,
      canvas_after = []\<rparr>"

text \<open>The default widget after its first \<^verbatim>\<open>on_size\<close>.\<close>

definition drawn_widget :: widget where
  "drawn_widget =
     \<lparr>pos_x = PFloat 1, pos_y = PFloat 1, width = PInt 100, height = PInt 100,
      border_width = PFloat 1, border_style = Some ''solid'',
      border_color = [PInt 1, PInt 1, PInt 1, PInt 1], borders = None,
      cur_dash_style = Some \<lparr>dash_length = 1, dash_offset = 0\<rparr>,
      border_origin_x = PFloat 2, border_origin_y = PFloat 2,
      border_lines = Some
        \<lparr>line_rectangle = [PFloat 2, PFloat 2, PFloat 98, PFloat 98],
         line_width = PFloat 1, line_cap = ''square'', line_joint = ''miter'',
         line_dash_length = 1, line_dash_offset = 0\<rparr>,
      border_color_instr = Some [PInt 1, PInt 1, PInt 1, PInt 1],
      INIT_STATE = True, canvas_after = [ColorInstr, LineInstr]\<rparr>"

text \<open>The drawn default widget after \<^verbatim>\<open>border_width = 10\<close> and a resize to \<open>(20, 20)\<close>.\<close>

definition resized_widget :: widget where
  "resized_widget =
     \<lparr>pos_x = PFloat 11, pos_y = PFloat 11, width = PInt 20, height = PInt 20,
      border_width = PInt 10, border_style = Some ''solid'',
      border_color = [PInt 1, PInt 1, PInt 1, PInt 1], borders = None,
      cur_dash_style = Some \<lparr>dash_length = 1, dash_offset = 0\<rparr>,
      border_origin_x = PFloat 21, border_origin_y = PFloat 21,
      border_lines = Some
        \<lparr>line_rectangle = [PFloat 21, PFloat 21, PInt 0, PInt 0],
         line_width = PInt 10, line_cap = ''square'', line_joint = ''miter'',
         line_dash_length = 1, line_dash_offset = 0\<rparr>,
      border_color_instr = Some [PInt 1, PInt 1, PInt 1, PInt 1],
      INIT_STATE = True, canvas_after = [ColorInstr, LineInstr]\<rparr>"



text \<open>The origin is the position plus the border width in both axes, by value.\<close>

definition origin_synced :: "widget \<Rightarrow> bool" where
  "origin_synced s =
     (py_eq (border_origin_x s) (py_add (pos_x s) (border_width s)) \<and>
      py_eq (border_origin_y s) (py_add (pos_y s) (border_width s)))"

text \<open>The default widget with \<^verbatim>\<open>border_width = 0\<close> assigned before anything is drawn.\<close>

definition zero_widget :: widget where
  "zero_widget = default_widget\<lparr>border_width := PInt 0\<rparr>"


text \<open>The drawn default widget after a resize to \<open>(16, 16)\<close>.\<close>

definition small_widget :: widget where
  "small_widget =
     \<lparr>pos_x = PFloat 2, pos_y = PFloat 2, width = PInt 16, height = PInt 16,
      border_width = PFloat 1, border_style = Some ''solid'',
      border_color = [PInt 1, PInt 1, PInt 1, PInt 1], borders = None,
      cur_dash_style = Some \<lparr>dash_length = 1, dash_offset = 0\<rparr>,
      border_origin_x = PFloat 3, border_origin_y = PFloat 3,
      border_lines = Some
        \<lparr>line_rectangle = [PFloat 3, PFloat 3, PFloat 14, PFloat 14],
         line_width = PFloat 1, line_cap = ''square'', line_joint = ''miter'',
         line_dash_length = 1, line_dash_offset = 0\<rparr>,
      border_color_instr = Some [PInt 1, PInt 1, PInt 1, PInt 1],
      INIT_STATE = True, canvas_after = [ColorInstr, LineInstr]\<rparr>"

text \<open>The default widget after \<^verbatim>\<open>borders = (5, 'dashed', (1,0,0,1))\<close> and then
  \<^verbatim>\<open>border_width = 3\<close>.\<close>

definition bordered_widget :: widget where
  "bordered_widget =
     \<lparr>pos_x = PInt 0, pos_y = PInt 0, width = PInt 100, height = PInt 100,
      border_width = PInt 3, border_style = Some ''dashed'',
      border_color = [PInt 1, PInt 0, PInt 0, PInt 1],
      borders = Some (PInt 5, ''dashed'', [PInt 1, PInt 0, PInt 0, PInt 1]),
      cur_dash_style = Some \<lparr>dash_length = 10, dash_offset = 5\<rparr>,
      border_origin_x = PInt 3, border_origin_y = PInt 3,
      border_lines = Some
        \<lparr>line_rectangle = [PInt 3, PInt 3, PInt 94, PInt 94],
         line_width = PInt 3, line_cap = ''square'', line_joint = ''miter'',
         line_dash_length = 1, line_dash_offset = 0\<rparr>,
      border_color_instr = Some [PInt 1, PInt 1, PInt 1, PInt 1],
      INIT_STATE = True, canvas_after = [ColorInstr, LineInstr]\<rparr>"

section \<open>What the origin handlers leave alone\<close>

lemma draw_border_keeps:
  "draw_border s = Inr s' \<Longrightarrow>
     pos_x s' = pos_x s \<and> pos_y s' = pos_y s \<and> width s' = width s \<and> height s' = height s \<and>
     border_width s' = border_width s \<and> border_style s' = border_style s \<and>
     border_color s' = border_color s \<and> borders s' = borders s \<and>
     cur_dash_style s' = cur_dash_style s \<and>
     border_origin_x s' = border_origin_x s \<and> border_origin_y s' = border_origin_y s"
  by (auto simp: draw_border_def split: option.splits)

lemma update_borders_keeps:
  "pos_x (update_borders s) = pos_x s \<and> pos_y (update_borders s) = pos_y s \<and>
   width (update_borders s) = width s \<and> height (update_borders s) = height s \<and>
   border_width (update_borders s) = border_width s \<and>
   border_style (update_borders s) = border_style s \<and>
   border_color (update_borders s) = border_color s \<and>
   borders (update_borders s) = borders s \<and>
   cur_dash_style (update_borders s) = cur_dash_style s \<and>
   border_origin_x (update_borders s) = border_origin_x s \<and>
   border_origin_y (update_borders s) = border_origin_y s \<and>
   INIT_STATE (update_borders s) = INIT_STATE s \<and>
   canvas_after (update_borders s) = canvas_after s \<and>
   border_color_instr (update_borders s) = border_color_instr s"
  by (simp add: update_borders_def Let_def split: option.splits)

lemma on_origin_keeps:
  "on__border_origin s = Inr s' \<Longrightarrow>
     pos_x s' = pos_x s \<and> pos_y s' = pos_y s \<and> width s' = width s \<and> height s' = height s \<and>
     border_width s' = border_width s \<and> border_style s' = border_style s \<and>
     border_color s' = border_color s \<and> borders s' = borders s \<and>
     cur_dash_style s' = cur_dash_style s \<and>
     border_origin_x s' = border_origin_x s \<and> border_origin_y s' = border_origin_y s"
  unfolding on__border_origin_def Let_def
  by (auto simp: update_borders_keeps dest!: draw_border_keeps split: if_splits)

lemma set_origin_x_keeps:
  "set_border_origin_x v s = Inr s' \<Longrightarrow>
     pos_x s' = pos_x s \<and> pos_y s' = pos_y s \<and> width s' = width s \<and> height s' = height s \<and>
     border_width s' = border_width s \<and> border_style s' = border_style s \<and>
     border_color s' = border_color s \<and> borders s' = borders s \<and>
     cur_dash_style s' = cur_dash_style s \<and> border_origin_y s' = border_origin_y s"
  unfolding set_border_origin_x_def
  by (auto dest!: on_origin_keeps split: if_splits)

lemma set_origin_y_keeps:
  "set_border_origin_y v s = Inr s' \<Longrightarrow>
     pos_x s' = pos_x s \<and> pos_y s' = pos_y s \<and> width s' = width s \<and> height s' = height s \<and>
     border_width s' = border_width s \<and> border_style s' = border_style s \<and>
     border_color s' = border_color s \<and> borders s' = borders s \<and>
     cur_dash_style s' = cur_dash_style s \<and> border_origin_x s' = border_origin_x s"
  unfolding set_border_origin_y_def
  by (auto dest!: on_origin_keeps split: if_splits)

lemma set_border_origin_keeps:
  "set_border_origin s = Inr s' \<Longrightarrow>
     pos_x s' = pos_x s \<and> pos_y s' = pos_y s \<and> width s' = width s \<and> height s' = height s \<and>
     border_width s' = border_width s \<and> border_style s' = border_style s \<and>
     border_color s' = border_color s \<and> borders s' = borders s \<and>
     cur_dash_style s' = cur_dash_style s"
  unfolding set_border_origin_def
  by (auto dest!: set_origin_x_keeps set_origin_y_keeps split: sum.splits)

termination on_border_width
proof (relation "measure (\<lambda>a. case a of
          Inl s \<Rightarrow> (if over_quarter (border_width s) s then 2 else 0)
        | Inr (v, s) \<Rightarrow> (if over_quarter v s then 3 else 1))", goal_cases)
  case 1
  show ?case by simp
next
  case (2 s s1 m l l')
  from 2(1) have k: "width s1 = width s" "border_width s1 = border_width s"
    using set_border_origin_keeps by blast+
  from 2 k have a: "over_quarter (border_width s) s"
    by (simp add: over_quarter_def)
  from 2 k have b: "\<not> over_quarter m (s1\<lparr>border_lines := Some l'\<rparr>)"
    by (simp add: over_quarter_def py_le_def)
  from a b show ?case by simp
next
  case (3 v s)
  show ?case by (simp add: over_quarter_def)
qed

declare on_border_width.simps [simp del] set_border_width.simps [simp del]

section \<open>The origin handlers on a drawn border\<close>

lemma update_borders_eq:
  "update_borders s =
     s\<lparr>border_lines := map_option (\<lambda>l. l\<lparr>line_rectangle := outline_rect s\<rparr>) (border_lines s)\<rparr>"
  by (simp add: update_borders_def outline_rect_def Let_def split: option.splits)

lemma on_origin_INIT:
  "INIT_STATE s \<Longrightarrow> on__border_origin s = Inr (update_borders s)"
  by (simp add: on__border_origin_def Let_def update_borders_keeps)

lemma set_origin_x_INIT:
  assumes "INIT_STATE s"
  shows "\<exists>ox r. set_border_origin_x v s =
           Inr (s\<lparr>border_origin_x := ox,
                  border_lines := map_option (\<lambda>l. l\<lparr>line_rectangle := r l\<rparr>) (border_lines s)\<rparr>)
         \<and> py_eq ox v"
proof (cases "py_eq (border_origin_x s) v")
  case True
  show ?thesis
    apply (rule exI[where x="border_origin_x s"])
    apply (rule exI[where x="line_rectangle"])
    using True by (simp add: set_border_origin_x_def option.map_ident)
next
  case False
  show ?thesis
    apply (rule exI[where x="v"])
    apply (rule exI[where x="\<lambda>l. outline_rect (s\<lparr>border_origin_x := v\<rparr>)"])
    using False assms
    by (simp add: set_border_origin_x_def on_origin_INIT update_borders_eq py_eq_def)
qed

lemma set_origin_y_INIT:
  assumes "INIT_STATE s"
  shows "\<exists>oy r. set_border_origin_y v s =
           Inr (s\<lparr>border_origin_y := oy,
                  border_lines := map_option (\<lambda>l. l\<lparr>line_rectangle := r l\<rparr>) (border_lines s)\<rparr>)
         \<and> py_eq oy v"
proof (cases "py_eq (border_origin_y s) v")
  case True
  show ?thesis
    apply (rule exI[where x="border_origin_y s"])
    apply (rule exI[where x="line_rectangle"])
    using True by (simp add: set_border_origin_y_def option.map_ident)
next
  case False
  show ?thesis
    apply (rule exI[where x="v"])
    apply (rule exI[where x="\<lambda>l. outline_rect (s\<lparr>border_origin_y := v\<rparr>)"])
    using False assms
    by (simp add: set_border_origin_y_def on_origin_INIT update_borders_eq py_eq_def)
qed

lemma set_border_origin_INIT:
  assumes "INIT_STATE s"
  shows "\<exists>ox oy r. set_border_origin s =
           Inr (s\<lparr>border_origin_x := ox, border_origin_y := oy,
                  border_lines := map_option (\<lambda>l. l\<lparr>line_rectangle := r l\<rparr>) (border_lines s)\<rparr>)
         \<and> py_eq ox (py_add (pos_x s) (border_width s))
         \<and> py_eq oy (py_add (pos_y s) (border_width s))"
proof -
  obtain ox r where x: "set_border_origin_x (py_add (pos_x s) (border_width s)) s =
           Inr (s\<lparr>border_origin_x := ox,
                  border_lines := map_option (\<lambda>l. l\<lparr>line_rectangle := r l\<rparr>) (border_lines s)\<rparr>)"
      and ox: "py_eq ox (py_add (pos_x s) (border_width s))"
    using set_origin_x_INIT[OF assms] by blast
  let ?s1 = "s\<lparr>border_origin_x := ox,
                  border_lines := map_option (\<lambda>l. l\<lparr>line_rectangle := r l\<rparr>) (border_lines s)\<rparr>"
  have i1: "INIT_STATE ?s1" using assms by simp
  obtain oy r' where y: "set_border_origin_y (py_add (pos_y s) (border_width s)) ?s1 =
           Inr (?s1\<lparr>border_origin_y := oy,
                  border_lines := map_option (\<lambda>l. l\<lparr>line_rectangle := r' l\<rparr>) (border_lines ?s1)\<rparr>)"
      and oy: "py_eq oy (py_add (pos_y s) (border_width s))"
    using set_origin_y_INIT[OF i1] by blast
  show ?thesis
    apply (rule exI[where x=ox])
    apply (rule exI[where x=oy])
    apply (rule exI[where x="\<lambda>l. r' (l\<lparr>line_rectangle := r l\<rparr>)"])
    using x y ox oy
    by (simp add: set_border_origin_def option.map_comp comp_def)
qed

lemma quarter_width:
  "\<exists>m. py_div w (PInt 4) = Inr m"
  by (cases w) simp_all

lemma quarter_nonneg:
  "py_div w (PInt 4) = Inr m \<Longrightarrow> 0 \<le> val w \<Longrightarrow> 0 \<le> val m"
  by (cases w) auto

lemma set_line_width_pos:
  "py_gt v (PInt 0) \<Longrightarrow> set_line_width v l = Inr (l\<lparr>line_width := v\<rparr>)"
  by (simp add: set_line_width_def py_gt_def py_le_def)

lemma set_line_width_fabs:
  "\<not> py_eq v (PInt 0) \<Longrightarrow> set_line_width (fabs v) l = Inr (l\<lparr>line_width := fabs v\<rparr>)"
  by (simp add: set_line_width_def py_eq_def py_le_def fabs_def)

lemma set_line_width_refused:
  "\<not> py_gt v (PInt 0) \<Longrightarrow> set_line_width v l = Inl GraphicException"
  by (simp add: set_line_width_def py_gt_def py_le_def)

lemma on_border_width_within:
  assumes "INIT_STATE s" "border_lines s = Some l"
    and "py_div (width s) (PInt 4) = Inr m" "py_le (border_width s) m"
  shows "\<exists>ox oy r. on_border_width s =
           Inr (s\<lparr>border_origin_x := ox, border_origin_y := oy,
                  border_lines := Some
                    (if py_gt (border_width s) (PInt 0)
                       then l\<lparr>line_rectangle := r, line_width := border_width s\<rparr>
                     else if \<not> py_eq (border_width s) (PInt 0)
                       then l\<lparr>line_rectangle := r, line_width := fabs (border_width s)\<rparr>
                     else l\<lparr>line_rectangle := zero_rect\<rparr>)\<rparr>)
         \<and> py_eq ox (py_add (pos_x s) (border_width s))
         \<and> py_eq oy (py_add (pos_y s) (border_width s))"
proof -
  obtain ox oy r where o: "set_border_origin s =
           Inr (s\<lparr>border_origin_x := ox, border_origin_y := oy,
                  border_lines := map_option (\<lambda>l. l\<lparr>line_rectangle := r l\<rparr>) (border_lines s)\<rparr>)"
     and ox: "py_eq ox (py_add (pos_x s) (border_width s))"
     and oy: "py_eq oy (py_add (pos_y s) (border_width s))"
    using set_border_origin_INIT[OF assms(1)] by blast
  show ?thesis
    apply (rule exI[where x=ox])
    apply (rule exI[where x=oy])
    apply (rule exI[where x="r l"])
    using o ox oy assms
    by (simp add: on_border_width.simps zero_rect_def set_line_width_pos set_line_width_fabs)
qed

lemma on_border_width_clamp:
  assumes "INIT_STATE s" "border_lines s = Some l"
    and "py_div (width s) (PInt 4) = Inr m" "\<not> py_le (border_width s) m"
    and "py_gt m (PInt 0)"
  shows "\<exists>ox oy r. on_border_width s =
           on_border_width (s\<lparr>border_origin_x := ox, border_origin_y := oy,
                  border_lines := Some (l\<lparr>line_rectangle := r, line_width := m\<rparr>),
                  border_width := m\<rparr>)"
proof -
  obtain ox oy r where o: "set_border_origin s =
           Inr (s\<lparr>border_origin_x := ox, border_origin_y := oy,
                  border_lines := map_option (\<lambda>l. l\<lparr>line_rectangle := r l\<rparr>) (border_lines s)\<rparr>)"
    using set_border_origin_INIT[OF assms(1)] by blast
  have ne: "\<not> py_eq (border_width s) m"
    using assms(4) by (simp add: py_eq_def py_le_def)
  show ?thesis
    apply (rule exI[where x=ox])
    apply (rule exI[where x=oy])
    apply (rule exI[where x="r l"])
    apply (subst on_border_width.simps)
    using o assms ne
    by (simp add: set_border_width.simps set_line_width_pos)
qed

lemma on_border_width_clamp_refused:
  assumes "INIT_STATE s" "border_lines s = Some l"
    and "py_div (width s) (PInt 4) = Inr m" "\<not> py_le (border_width s) m"
    and "\<not> py_gt m (PInt 0)"
  shows "on_border_width s = Inl GraphicException"
proof -
  obtain ox oy r where o: "set_border_origin s =
           Inr (s\<lparr>border_origin_x := ox, border_origin_y := oy,
                  border_lines := map_option (\<lambda>l. l\<lparr>line_rectangle := r l\<rparr>) (border_lines s)\<rparr>)"
    using set_border_origin_INIT[OF assms(1)] by blast
  show ?thesis
    using o assms by (simp add: on_border_width.simps set_line_width_refused)
qed

section \<open>Totality and the invariant\<close>

lemma val_py_add: "val (py_add a b) = val a + val b"
  by (cases a; cases b) simp_all

lemma on_origin_total:
  "cur_dash_style s \<noteq> None \<Longrightarrow> \<exists>s'. on__border_origin s = Inr s'"
  by (auto simp: on__border_origin_def Let_def draw_border_def update_borders_keeps)

lemma set_origin_x_total:
  "cur_dash_style s \<noteq> None \<Longrightarrow> \<exists>s'. set_border_origin_x v s = Inr s'"
  using on_origin_total[of "s\<lparr>border_origin_x := v\<rparr>"]
  by (simp add: set_border_origin_x_def)

lemma set_origin_y_total:
  "cur_dash_style s \<noteq> None \<Longrightarrow> \<exists>s'. set_border_origin_y v s = Inr s'"
  using on_origin_total[of "s\<lparr>border_origin_y := v\<rparr>"]
  by (simp add: set_border_origin_y_def)

lemma set_border_origin_total:
  assumes "cur_dash_style s \<noteq> None"
  shows "\<exists>s'. set_border_origin s = Inr s'"
proof -
  obtain s1 where 1: "set_border_origin_x (py_add (pos_x s) (border_width s)) s = Inr s1"
    using assms set_origin_x_total by blast
  then have c: "cur_dash_style s1 \<noteq> None"
    using assms set_origin_x_keeps by metis
  obtain s2 where "set_border_origin_y (py_add (pos_y s1) (border_width s1)) s1 = Inr s2"
    using c set_origin_y_total by blast
  with 1 show ?thesis by (simp add: set_border_origin_def)
qed

lemma set_origin_x_value:
  "set_border_origin_x v s = Inr s' \<Longrightarrow> py_eq (border_origin_x s') v"
  unfolding set_border_origin_x_def
  by (auto simp: py_eq_def dest!: on_origin_keeps split: if_splits)

lemma set_origin_y_value:
  "set_border_origin_y v s = Inr s' \<Longrightarrow> py_eq (border_origin_y s') v"
  unfolding set_border_origin_y_def
  by (auto simp: py_eq_def dest!: on_origin_keeps split: if_splits)

lemma set_border_origin_value:
  assumes "set_border_origin s = Inr s'"
  shows "py_eq (border_origin_x s') (py_add (pos_x s') (border_width s')) \<and>
         py_eq (border_origin_y s') (py_add (pos_y s') (border_width s'))"
proof -
  from assms obtain s1 where
    1: "set_border_origin_x (py_add (pos_x s) (border_width s)) s = Inr s1" and
    2: "set_border_origin_y (py_add (pos_y s1) (border_width s1)) s1 = Inr s'"
    by (auto simp: set_border_origin_def split: sum.splits)
  from 1 have a: "py_eq (border_origin_x s1) (py_add (pos_x s) (border_width s))"
    by (rule set_origin_x_value)
  from 2 have b: "py_eq (border_origin_y s') (py_add (pos_y s1) (border_width s1))"
    by (rule set_origin_y_value)
  from 1 have k1: "pos_x s1 = pos_x s" "border_width s1 = border_width s"
    using set_origin_x_keeps by blast+
  from 2 have k2: "pos_x s' = pos_x s1" "pos_y s' = pos_y s1" "border_width s' = border_width s1"
    "border_origin_x s' = border_origin_x s1"
    using set_origin_y_keeps by blast+
  from a b k1 k2 show ?thesis by simp
qed

lemma draw_border_inv:
  assumes "cur_dash_style s \<noteq> None" "border_lines s = None" "border_color_instr s = None"
    "canvas_after s = []" "INIT_STATE s"
  shows "\<exists>s'. draw_border s = Inr s' \<and> border_inv s'"
  using assms by (auto simp: draw_border_def border_inv_def)

lemma on_origin_inv:
  assumes "border_inv s"
  shows "\<exists>s'. on__border_origin s = Inr s' \<and> border_inv s' \<and> INIT_STATE s'"
proof (cases "INIT_STATE s")
  case True
  then show ?thesis using assms
    by (simp add: on_origin_INIT update_borders_eq border_inv_def)
next
  case False
  with assms have n: "border_lines s = None" by (simp add: border_inv_def)
  then have u: "update_borders s = s" by (simp add: update_borders_eq)
  show ?thesis using assms False n
    by (auto simp: on__border_origin_def u Let_def draw_border_def border_inv_def)
qed

lemma set_origin_x_inv:
  assumes "border_inv s"
  shows "\<exists>s'. set_border_origin_x v s = Inr s' \<and> border_inv s' \<and>
           (INIT_STATE s \<longrightarrow> INIT_STATE s')"
proof (cases "py_eq (border_origin_x s) v")
  case True
  then show ?thesis using assms by (simp add: set_border_origin_x_def)
next
  case False
  have "border_inv (s\<lparr>border_origin_x := v\<rparr>)"
    using assms by (auto simp: border_inv_def split: if_splits)
  from on_origin_inv[OF this] False show ?thesis
    by (auto simp: set_border_origin_x_def)
qed

lemma set_origin_y_inv:
  assumes "border_inv s"
  shows "\<exists>s'. set_border_origin_y v s = Inr s' \<and> border_inv s' \<and>
           (INIT_STATE s \<longrightarrow> INIT_STATE s')"
proof (cases "py_eq (border_origin_y s) v")
  case True
  then show ?thesis using assms by (simp add: set_border_origin_y_def)
next
  case False
  have "border_inv (s\<lparr>border_origin_y := v\<rparr>)"
    using assms by (auto simp: border_inv_def split: if_splits)
  from on_origin_inv[OF this] False show ?thesis
    by (auto simp: set_border_origin_y_def)
qed

lemma set_border_origin_inv:
  assumes "border_inv s"
  shows "\<exists>s'. set_border_origin s = Inr s' \<and> border_inv s' \<and>
           (INIT_STATE s \<longrightarrow> INIT_STATE s')"
proof -
  obtain s1 where 1: "set_border_origin_x (py_add (pos_x s) (border_width s)) s = Inr s1"
    "border_inv s1" "INIT_STATE s \<longrightarrow> INIT_STATE s1"
    using set_origin_x_inv[OF assms] by blast
  obtain s2 where 2: "set_border_origin_y (py_add (pos_y s1) (border_width s1)) s1 = Inr s2"
    "border_inv s2" "INIT_STATE s1 \<longrightarrow> INIT_STATE s2"
    using set_origin_y_inv[OF 1(2)] by blast
  from 1 2 show ?thesis by (simp add: set_border_origin_def)
qed

lemma set_pos_inv:
  assumes "border_inv s"
  shows "\<exists>s'. set_pos v s = Inr s' \<and> border_inv s' \<and> (INIT_STATE s \<longrightarrow> INIT_STATE s')"
proof (cases "py_eq (pos_x s) (fst v) \<and> py_eq (pos_y s) (snd v)")
  case True
  then show ?thesis using assms by (simp add: set_pos_def)
next
  case False
  let ?s1 = "s\<lparr>pos_x := (if py_eq (pos_x s) (fst v) then pos_x s else fst v),
                pos_y := (if py_eq (pos_y s) (snd v) then pos_y s else snd v)\<rparr>"
  have "border_inv ?s1" using assms by (auto simp: border_inv_def split: if_splits)
  from set_border_origin_inv[OF this] False show ?thesis
    by (auto simp: set_pos_def on_pos_def)
qed

lemma on_size_inv:
  assumes "border_inv s"
  shows "\<exists>s'. on_size s = Inr s' \<and> border_inv s' \<and> INIT_STATE s'"
proof -
  obtain s1 where 1: "set_border_origin s = Inr s1" "border_inv s1"
    using set_border_origin_inv[OF assms] by blast
  obtain s2 where 2: "set_pos (border_origin_x s1, border_origin_y s1) s1 = Inr s2" "border_inv s2"
    using set_pos_inv[OF 1(2)] by blast
  show ?thesis
  proof (cases "INIT_STATE s2")
    case True
    with 1 2 show ?thesis by (simp add: on_size_def)
  next
    case False
    with 2(2) have "\<exists>s'. draw_border (s2\<lparr>INIT_STATE := True\<rparr>) = Inr s' \<and> border_inv s'"
      by (intro draw_border_inv) (auto simp: border_inv_def)
    then obtain s3 where 3: "draw_border (s2\<lparr>INIT_STATE := True\<rparr>) = Inr s3" "border_inv s3"
      by blast
    then have "INIT_STATE s3" by (auto simp: draw_border_def split: option.splits)
    with 1 2 3 False show ?thesis by (simp add: on_size_def)
  qed
qed

lemma set_size_inv:
  assumes "border_inv s"
  shows "\<exists>s'. set_size v s = Inr s' \<and> border_inv s' \<and> (INIT_STATE s \<longrightarrow> INIT_STATE s')"
proof (cases "py_eq (width s) (fst v) \<and> py_eq (height s) (snd v)")
  case True
  then show ?thesis using assms by (simp add: set_size_def)
next
  case False
  let ?s1 = "s\<lparr>width := (if py_eq (width s) (fst v) then width s else fst v),
                height := (if py_eq (height s) (snd v) then height s else snd v)\<rparr>"
  have "border_inv ?s1" using assms by (auto simp: border_inv_def split: if_splits)
  from on_size_inv[OF this] False show ?thesis
    by (auto simp: set_size_def)
qed

lemma set_line_width_Some:
  "set_line_width v l = Inr l' \<Longrightarrow> l' = l\<lparr>line_width := v\<rparr>"
  by (simp add: set_line_width_def split: if_splits)

lemma border_width_inv:
  "on_border_width s = Inr s' \<longrightarrow> border_inv s \<longrightarrow>
     border_inv s' \<and> (INIT_STATE s \<longrightarrow> INIT_STATE s')"
  "set_border_width v t = Inr t' \<longrightarrow> border_inv t \<longrightarrow>
     border_inv t' \<and> (INIT_STATE t \<longrightarrow> INIT_STATE t')"
proof (induction s and v t arbitrary: s' and t' rule: on_border_width_set_border_width.induct)
  case (1 s)
  show ?case
  proof (intro impI)
    assume r: "on_border_width s = Inr s'" and inv: "border_inv s"
    obtain s1 where s1: "set_border_origin s = Inr s1" "border_inv s1"
      "INIT_STATE s \<longrightarrow> INIT_STATE s1"
      using set_border_origin_inv[OF inv] by blast
    obtain m where m: "py_div (width s1) (PInt 4) = Inr m"
      using quarter_width by blast
    show "border_inv s' \<and> (INIT_STATE s \<longrightarrow> INIT_STATE s')"
    proof (cases "border_lines s1")
      case None
      with r s1 m show ?thesis by (simp add: on_border_width.simps)
    next
      case (Some l)
      show ?thesis
      proof (cases "py_le (border_width s1) m")
        case True
        with r s1 m Some show ?thesis
          by (auto simp: on_border_width.simps border_inv_def
              split: if_splits sum.splits)
      next
        case False
        from r s1 m Some False obtain l' where l': "set_line_width m l = Inr l'"
          and r2: "set_border_width m (s1\<lparr>border_lines := Some l'\<rparr>) = Inr s'"
          by (auto simp: on_border_width.simps split: sum.splits)
        let ?s2 = "s1\<lparr>border_lines := Some l'\<rparr>"
        have i2: "border_inv ?s2" "INIT_STATE ?s2 = INIT_STATE s1"
          using s1(2) Some by (auto simp: border_inv_def split: if_splits)
        from "1.IH"[OF s1(1) m Some False l', of s'] r2 i2 s1(3)
        show ?thesis by simp
      qed
    qed
  qed
next
  case (2 v s)
  show ?case
  proof (cases "py_eq (border_width s) v")
    case True
    then show ?thesis by (auto simp: set_border_width.simps)
  next
    case False
    have "border_inv s \<Longrightarrow> border_inv (s\<lparr>border_width := v\<rparr>)"
      by (auto simp: border_inv_def split: if_splits)
    with "2.IH"[OF False, of t'] False show ?thesis
      by (auto simp: set_border_width.simps)
  qed
qed

lemma on_border_width_within_total:
  assumes "border_inv s" "py_div (width s) (PInt 4) = Inr m" "py_le (border_width s) m"
  shows "\<exists>s'. on_border_width s = Inr s'"
proof -
  obtain s1 where s1: "set_border_origin s = Inr s1"
    using set_border_origin_inv[OF assms(1)] by blast
  have k: "width s1 = width s" "border_width s1 = border_width s"
    using set_border_origin_keeps[OF s1] by auto
  show ?thesis
    using s1 k assms(2,3)
    by (auto simp: on_border_width.simps set_line_width_pos set_line_width_fabs
        split: option.splits)
qed

lemma set_border_width_total:
  assumes "border_inv s" "py_div (width s) (PInt 4) = Inr m"
    and "py_le v m \<or> py_gt m (PInt 0)"
  shows "\<exists>s'. set_border_width v s = Inr s'"
proof (cases "py_eq (border_width s) v")
  case True
  then show ?thesis by (simp add: set_border_width.simps)
next
  case False
  let ?sa = "s\<lparr>border_width := v\<rparr>"
  have ia: "border_inv ?sa" using assms(1) by (auto simp: border_inv_def split: if_splits)
  have a: "set_border_width v s = on_border_width ?sa"
    using False by (simp add: set_border_width.simps)
  show ?thesis
  proof (cases "py_le v m")
    case True
    with on_border_width_within_total[OF ia, of m] assms(2) a show ?thesis by simp
  next
    case nle: False
    with assms(3) have mp: "py_gt m (PInt 0)" by simp
    obtain s1 where s1: "set_border_origin ?sa = Inr s1" "border_inv s1"
      using set_border_origin_inv[OF ia] by blast
    have k: "width s1 = width s" "border_width s1 = v"
      using set_border_origin_keeps[OF s1(1)] by auto
    show ?thesis
    proof (cases "border_lines s1")
      case None
      with s1 k assms(2) a show ?thesis by (simp add: on_border_width.simps)
    next
      case (Some l)
      let ?sb = "s1\<lparr>border_lines := Some (l\<lparr>line_width := m\<rparr>), border_width := m\<rparr>"
      have ne: "\<not> py_eq v m" using nle by (simp add: py_eq_def py_le_def)
      have b: "on_border_width ?sa = on_border_width ?sb"
        apply (subst on_border_width.simps)
        using s1(1) k assms(2) Some nle mp ne
        by (simp add: set_line_width_pos set_border_width.simps)
      have ib: "border_inv ?sb"
        using s1(2) Some by (auto simp: border_inv_def split: if_splits)
      have "py_le (border_width ?sb) m" by (simp add: py_le_def)
      from on_border_width_within_total[OF ib _ this] k assms(2)
      obtain s' where "on_border_width ?sb = Inr s'" by auto
      with a b show ?thesis by simp
    qed
  qed
qed

section \<open>Evaluating concrete runs\<close>

lemmas run_defs =
  construct_def base_init_def init_def new_widget_def no_kwargs_def
  set_border_width.simps on_border_width.simps set_border_origin_def
  set_border_origin_x_def set_border_origin_y_def on__border_origin_def
  update_borders_def draw_border_def on_pos_def set_pos_def on_size_def set_size_def
  set_border_color_def on_borders_def set_borders_def borders_eq_def
  py_eq_def py_le_def py_gt_def py_eq_list_def truthy_def fabs_def dash_styles_def
  CAP_def JOINT_def Let_def has_border_def outline_rect_def zero_rect_def
  line_init_width_def set_line_width_def

lemma new_widget_inv_after_init:
  "border_inv ((new_widget px py w h)\<lparr>border_style := Some st, cur_dash_style := Some d\<rparr>)"
  by (simp add: border_inv_def new_widget_def)

section \<open>Construction\<close>

text \<open>
  Until \<^verbatim>\<open>__init__\<close> has assigned \<^verbatim>\<open>cur_dash_style\<close>, an origin change raises; a
  constructor that returns has drawn nothing.
\<close>

lemma set_border_color_keeps [simp]:
  "pos_x (set_border_color c s) = pos_x s"
  "pos_y (set_border_color c s) = pos_y s"
  "width (set_border_color c s) = width s"
  "height (set_border_color c s) = height s"
  "border_width (set_border_color c s) = border_width s"
  "border_style (set_border_color c s) = border_style s"
  "borders (set_border_color c s) = borders s"
  "cur_dash_style (set_border_color c s) = cur_dash_style s"
  "border_origin_x (set_border_color c s) = border_origin_x s"
  "border_origin_y (set_border_color c s) = border_origin_y s"
  "border_lines (set_border_color c s) = border_lines s"
  "border_color_instr (set_border_color c s) = border_color_instr s"
  "INIT_STATE (set_border_color c s) = INIT_STATE s"
  "canvas_after (set_border_color c s) = canvas_after s"
  by (simp_all add: set_border_color_def)

lemma set_border_color_value:
  "py_eq_list (border_color (set_border_color c s)) c"
  by (simp add: set_border_color_def py_eq_list_def)

lemma set_border_color_inv [simp]:
  "border_inv (set_border_color c s) = border_inv s"
  by (simp add: border_inv_def)

lemma on_origin_before_init:
  "cur_dash_style s = None \<Longrightarrow> \<not> INIT_STATE s \<Longrightarrow> on__border_origin s = Inl AttributeError"
  by (simp add: on__border_origin_def Let_def draw_border_def update_borders_keeps)

lemma set_border_origin_before_init:
  assumes "cur_dash_style s = None" "\<not> INIT_STATE s" "set_border_origin s = Inr s'"
  shows "s' = s"
  using assms
  by (auto simp: set_border_origin_def set_border_origin_x_def set_border_origin_y_def
      on_origin_before_init split: sum.splits if_splits)

lemma on_border_width_before_init:
  assumes "cur_dash_style s = None" "\<not> INIT_STATE s" "border_lines s = None"
    "on_border_width s = Inr s'"
  shows "s' = s"
proof -
  from assms(4) obtain s1 where 1: "set_border_origin s = Inr s1"
    by (auto simp: on_border_width.simps split: sum.splits)
  with assms have "s1 = s" using set_border_origin_before_init by blast
  with 1 assms show ?thesis
    by (auto simp: on_border_width.simps split: sum.splits)
qed

lemma set_border_width_before_init:
  assumes "cur_dash_style s = None" "\<not> INIT_STATE s" "border_lines s = None"
    "set_border_width v s = Inr s'"
  shows "s' = s \<or> s' = s\<lparr>border_width := v\<rparr>"
proof (cases "py_eq (border_width s) v")
  case True
  with assms show ?thesis by (simp add: set_border_width.simps)
next
  case False
  with assms(4) have "on_border_width (s\<lparr>border_width := v\<rparr>) = Inr s'"
    by (simp add: set_border_width.simps)
  with assms(1-3) on_border_width_before_init[of "s\<lparr>border_width := v\<rparr>" s']
  show ?thesis by simp
qed

lemma construct_inv:
  assumes "construct kw px py w h = Inr s0"
  shows "border_inv s0 \<and> \<not> INIT_STATE s0"
proof -
  let ?n = "new_widget px py w h"
  have n: "cur_dash_style ?n = None" "\<not> INIT_STATE ?n" "border_lines ?n = None"
    "border_color_instr ?n = None" "canvas_after ?n = []"
    by (simp_all add: new_widget_def)
  from assms obtain b where b: "base_init kw ?n = Inr b" and i: "init kw b = Inr s0"
    by (auto simp: construct_def split: sum.splits)
  have fb: "cur_dash_style b = None \<and> \<not> INIT_STATE b \<and> border_lines b = None \<and>
        border_color_instr b = None \<and> canvas_after b = []"
  proof (cases "kw_border_width kw")
    case None
    with b n show ?thesis
      by (auto simp: base_init_def split: option.splits)
  next
    case (Some v)
    with b obtain b1 where b1: "set_border_width v ?n = Inr b1"
      by (auto simp: base_init_def split: sum.splits)
    from set_border_width_before_init[OF n(1-3) b1]
    have "cur_dash_style b1 = None \<and> \<not> INIT_STATE b1 \<and> border_lines b1 = None \<and>
        border_color_instr b1 = None \<and> canvas_after b1 = []"
      using n by auto
    with b b1 Some show ?thesis
      by (auto simp: base_init_def split: option.splits)
  qed
  from i obtain v s1 st d col where s1: "set_border_width v b = Inr s1"
    and s0: "s0 = set_border_color col (s1\<lparr>border_style := Some st, cur_dash_style := Some d\<rparr>)"
    by (auto simp: init_def Let_def split: sum.splits option.splits)
  from fb set_border_width_before_init[OF _ _ _ s1]
  have f1: "\<not> INIT_STATE s1 \<and> border_lines s1 = None \<and>
        border_color_instr s1 = None \<and> canvas_after s1 = []"
    by auto
  with s0 show ?thesis
    by (simp add: border_inv_def)
qed

section \<open>The invariant over events\<close>

lemma on_borders_inv:
  assumes "border_inv s" "on_borders v s = Inr s'"
  shows "border_inv s' \<and> (INIT_STATE s \<longrightarrow> INIT_STATE s')"
proof -
  obtain bw st c where v: "v = (bw, st, c)" by (cases v) auto
  from assms(2) v obtain s1 where s1: "set_border_width bw s = Inr s1"
    by (auto simp: on_borders_def split: sum.splits)
  with border_width_inv(2)[of bw s s1] assms(1)
  have 1: "set_border_width bw s = Inr s1" "border_inv s1"
    "INIT_STATE s \<longrightarrow> INIT_STATE s1"
    by auto
  from assms(2) v 1 obtain d where d: "dash_styles st = Some d"
    by (auto simp: on_borders_def Let_def split: option.splits)
  let ?s3 = "(set_border_color c (s1\<lparr>border_style := Some st\<rparr>))\<lparr>cur_dash_style := Some d\<rparr>"
  have 3: "border_inv ?s3" "INIT_STATE ?s3 = INIT_STATE s1"
    using 1(2) by (auto simp: border_inv_def split: if_splits)
  from assms(2) v 1 d have "set_border_origin ?s3 = Inr s'"
    by (simp add: on_borders_def Let_def)
  with set_border_origin_inv[OF 3(1)] 3(2) 1(3) show ?thesis by auto
qed

lemma set_borders_inv:
  assumes "border_inv s" "set_borders v s = Inr s'"
  shows "border_inv s' \<and> (INIT_STATE s \<longrightarrow> INIT_STATE s')"
proof (cases "s' = s")
  case True
  with assms show ?thesis by simp
next
  case False
  with assms(2) have "on_borders v (s\<lparr>borders := Some v\<rparr>) = Inr s'"
    by (auto simp: set_borders_def split: option.splits if_splits)
  moreover have "border_inv (s\<lparr>borders := Some v\<rparr>)"
    using assms(1) by (auto simp: border_inv_def split: if_splits)
  ultimately show ?thesis using on_borders_inv by fastforce
qed

lemma fire_inv:
  assumes "border_inv s" "fire e s = Inr s'"
  shows "border_inv s' \<and> (INIT_STATE s \<longrightarrow> INIT_STATE s')"
proof (cases e)
  case (SetBorderWidth v)
  with assms border_width_inv(2)[of v s s'] show ?thesis by auto
next
  case (SetBorders v)
  with assms set_borders_inv show ?thesis by auto
next
  case (SetBorderColor c)
  with assms show ?thesis by auto
next
  case (SetPos v)
  with assms set_pos_inv[of s v] show ?thesis by auto
next
  case (SetSize v)
  with assms set_size_inv[of s v] show ?thesis by auto
next
  case OnSize
  with assms on_size_inv[of s] show ?thesis by auto
next
  case OnPos
  with assms set_border_origin_inv[of s] show ?thesis by (auto simp: on_pos_def)
next
  case OnBorderOrigin
  with assms on_origin_inv[of s] show ?thesis by auto
next
  case OnBorderWidth
  with assms border_width_inv(1)[of s s'] show ?thesis by auto
next
  case (OnBorders v)
  with assms on_borders_inv show ?thesis by auto
qed

lemma run_inv:
  "border_inv s \<Longrightarrow> run es s = Inr s' \<Longrightarrow> border_inv s' \<and> (INIT_STATE s \<longrightarrow> INIT_STATE s')"
proof (induction es arbitrary: s)
  case Nil
  then show ?case by simp
next
  case (Cons e es)
  from Cons.prems(2) obtain s1 where 1: "fire e s = Inr s1" "run es s1 = Inr s'"
    by (auto split: sum.splits)
  from fire_inv[OF Cons.prems(1) 1(1)] Cons.IH[OF _ 1(2)] show ?case by blast
qed

section \<open>The default widget\<close>

lemma construct_default_widget:
  "construct no_kwargs (PInt 0) (PInt 0) (PInt 100) (PInt 100) = Inr default_widget"
  by (simp add: run_defs default_widget_def)

lemma on_size_default_widget:
  "on_size default_widget = Inr drawn_widget"
  by (simp add: run_defs default_widget_def drawn_widget_def)

lemma default_widget_inv: "border_inv default_widget"
  by (simp add: border_inv_def default_widget_def)

section \<open>Unknown styles\<close>

lemma dash_styles_unknown:
  "st \<notin> {''solid'', ''dashed'', ''dotted''} \<Longrightarrow> dash_styles st = None"
  by (simp add: dash_styles_def)

section \<open>The origin follows position and width\<close>

lemma set_border_origin_synced:
  "set_border_origin s = Inr s' \<Longrightarrow> origin_synced s'"
  using set_border_origin_value by (simp add: origin_synced_def)

lemma border_width_synced:
  "on_border_width s = Inr s' \<longrightarrow>
     pos_x s' = pos_x s \<and> pos_y s' = pos_y s \<and> origin_synced s'"
  "set_border_width v t = Inr t' \<longrightarrow>
     pos_x t' = pos_x t \<and> pos_y t' = pos_y t \<and>
     (\<not> py_eq (border_width t) v \<longrightarrow> origin_synced t')"
proof (induction s and v t arbitrary: s' and t' rule: on_border_width_set_border_width.induct)
  case (1 s)
  show ?case
  proof
    assume r: "on_border_width s = Inr s'"
    then obtain s1 where s1: "set_border_origin s = Inr s1"
      by (auto simp: on_border_width.simps split: sum.splits)
    obtain m where m: "py_div (width s1) (PInt 4) = Inr m"
      using quarter_width by blast
    have k: "pos_x s1 = pos_x s" "pos_y s1 = pos_y s"
      using set_border_origin_keeps[OF s1] by auto
    have sy: "origin_synced s1" using s1 by (rule set_border_origin_synced)
    show "pos_x s' = pos_x s \<and> pos_y s' = pos_y s \<and> origin_synced s'"
    proof (cases "border_lines s1")
      case None
      with r s1 m k sy show ?thesis by (simp add: on_border_width.simps)
    next
      case (Some l)
      show ?thesis
      proof (cases "py_le (border_width s1) m")
        case True
        with r s1 m Some k sy show ?thesis
          by (auto simp: on_border_width.simps origin_synced_def
              split: if_splits sum.splits)
      next
        case False
        from r s1 m Some False obtain l' where l': "set_line_width m l = Inr l'"
          and r2: "set_border_width m (s1\<lparr>border_lines := Some l'\<rparr>) = Inr s'"
          by (auto simp: on_border_width.simps split: sum.splits)
        let ?s2 = "s1\<lparr>border_lines := Some l'\<rparr>"
        have ne: "\<not> py_eq (border_width ?s2) m"
          using False by (simp add: py_eq_def py_le_def)
        from "1.IH"[OF s1 m Some False l', of s'] r2 ne k show ?thesis by simp
      qed
    qed
  qed
next
  case (2 v s)
  show ?case
  proof (cases "py_eq (border_width s) v")
    case True
    then show ?thesis by (auto simp: set_border_width.simps)
  next
    case False
    with "2.IH"[OF False, of t'] show ?thesis
      by (simp add: set_border_width.simps)
  qed
qed

lemma set_border_origin_rect:
  assumes "INIT_STATE s" "border_lines s = Some l" "set_border_origin s = Inr s'"
    and "border_origin_x s' \<noteq> border_origin_x s \<or> border_origin_y s' \<noteq> border_origin_y s"
  shows "map_option line_rectangle (border_lines s') = Some (outline_rect s')"
  using assms
  by (auto simp: set_border_origin_def set_border_origin_x_def set_border_origin_y_def
      on_origin_INIT update_borders_eq outline_rect_def split: if_splits)

section \<open>Repeated handlers\<close>

lemma synced_set_border_origin:
  "origin_synced s \<Longrightarrow> set_border_origin s = Inr s"
  by (simp add: origin_synced_def set_border_origin_def set_border_origin_x_def
      set_border_origin_y_def)

lemma draw_border_synced:
  "draw_border s = Inr s' \<Longrightarrow> origin_synced s' = origin_synced s"
  using draw_border_keeps[of s s'] by (simp add: origin_synced_def)

lemma on_size_shift:
  assumes "on_size s = Inr s'"
  shows "val (pos_x s') = val (pos_x s) + val (border_width s) \<and>
         val (pos_y s') = val (pos_y s) + val (border_width s)"
proof -
  from assms obtain s1 s2 where 1: "set_border_origin s = Inr s1"
    and 2: "set_pos (border_origin_x s1, border_origin_y s1) s1 = Inr s2"
    and 3: "s' = s2 \<or> draw_border (s2\<lparr>INIT_STATE := True\<rparr>) = Inr s'"
    by (auto simp: on_size_def split: sum.splits if_splits)
  have k1: "pos_x s1 = pos_x s" "pos_y s1 = pos_y s" "border_width s1 = border_width s"
    using set_border_origin_keeps[OF 1] by auto
  have sy: "origin_synced s1" using 1 by (rule set_border_origin_synced)
  have p2: "val (pos_x s2) = val (border_origin_x s1) \<and> val (pos_y s2) = val (border_origin_y s1)"
  proof (cases "py_eq (pos_x s1) (border_origin_x s1) \<and> py_eq (pos_y s1) (border_origin_y s1)")
    case True
    with 2 show ?thesis by (simp add: set_pos_def py_eq_def)
  next
    case False
    let ?t = "s1\<lparr>pos_x := (if py_eq (pos_x s1) (border_origin_x s1) then pos_x s1
                           else border_origin_x s1),
                 pos_y := (if py_eq (pos_y s1) (border_origin_y s1) then pos_y s1
                           else border_origin_y s1)\<rparr>"
    from 2 False have "set_border_origin ?t = Inr s2"
      by (auto simp: set_pos_def on_pos_def)
    from set_border_origin_keeps[OF this] show ?thesis
      by (auto simp: py_eq_def)
  qed
  have p3: "pos_x s' = pos_x s2 \<and> pos_y s' = pos_y s2"
    using 3 draw_border_keeps[of "s2\<lparr>INIT_STATE := True\<rparr>" s'] by auto
  from p2 p3 sy k1 show ?thesis
    by (simp add: origin_synced_def py_eq_def val_py_add)
qed

section \<open>Widths within the limit\<close>


lemma set_border_width_unclamped:
  assumes "border_inv t" "py_div (width t) (PInt 4) = Inr m" "py_le bw m"
  shows "\<exists>t1. set_border_width bw t = Inr t1 \<and> border_inv t1 \<and>
           py_eq (border_width t1) bw \<and>
           (\<not> py_eq (border_width t) bw \<longrightarrow> border_width t1 = bw) \<and>
           border_color t1 = border_color t"
proof (cases "py_eq (border_width t) bw")
  case True
  with assms(1) show ?thesis by (simp add: set_border_width.simps)
next
  case False
  let ?ta = "t\<lparr>border_width := bw\<rparr>"
  have ia: "border_inv ?ta" using assms(1) by (auto simp: border_inv_def split: if_splits)
  obtain s1 where s1: "set_border_origin ?ta = Inr s1"
    using set_border_origin_inv[OF ia] by blast
  have k: "border_width s1 = bw" "width s1 = width t" "border_color s1 = border_color t"
    using set_border_origin_keeps[OF s1] by auto
  have "py_le (border_width ?ta) m" using assms(3) by simp
  from on_border_width_within_total[OF ia _ this] assms(2)
  obtain t1 where t1a: "on_border_width ?ta = Inr t1" by auto
  with border_width_inv(1)[of ?ta t1] ia
  have t1: "on_border_width ?ta = Inr t1" "border_inv t1" by auto
  have "border_width t1 = bw \<and> border_color t1 = border_color t"
    using t1(1) s1 k assms(2,3)
    by (auto simp: on_border_width.simps dest!: set_line_width_Some
        split: option.splits if_splits sum.splits)
  with t1 False show ?thesis by (simp add: set_border_width.simps py_eq_def)
qed

lemma on_size_synced:
  assumes "on_size s = Inr s'"
  shows "origin_synced s'"
proof -
  from assms obtain s1 s2 where 1: "set_border_origin s = Inr s1"
    and 2: "set_pos (border_origin_x s1, border_origin_y s1) s1 = Inr s2"
    and 3: "s' = s2 \<or> draw_border (s2\<lparr>INIT_STATE := True\<rparr>) = Inr s'"
    by (auto simp: on_size_def split: sum.splits if_splits)
  have sy1: "origin_synced s1" using 1 by (rule set_border_origin_synced)
  have sy2: "origin_synced s2"
  proof (cases "s2 = s1")
    case True
    with sy1 show ?thesis by simp
  next
    case False
    with 2 obtain t where "set_border_origin t = Inr s2"
      by (auto simp: set_pos_def on_pos_def split: if_splits)
    then show ?thesis by (rule set_border_origin_synced)
  qed
  from 3 show ?thesis
  proof
    assume "s' = s2"
    with sy2 show ?thesis by simp
  next
    assume d: "draw_border (s2\<lparr>INIT_STATE := True\<rparr>) = Inr s'"
    from draw_border_synced[OF d] sy2 show ?thesis by (simp add: origin_synced_def)
  qed
qed

lemma on_size_keeps_width:
  assumes "on_size s = Inr s'"
  shows "border_width s' = border_width s"
proof -
  from assms obtain s1 s2 where 1: "set_border_origin s = Inr s1"
    and 2: "set_pos (border_origin_x s1, border_origin_y s1) s1 = Inr s2"
    and 3: "s' = s2 \<or> draw_border (s2\<lparr>INIT_STATE := True\<rparr>) = Inr s'"
    by (auto simp: on_size_def split: sum.splits if_splits)
  have k1: "border_width s1 = border_width s"
    using set_border_origin_keeps[OF 1] by simp
  have k2: "border_width s2 = border_width s1"
    using 2 by (auto simp: set_pos_def on_pos_def split: if_splits
        dest!: set_border_origin_keeps)
  from 3 draw_border_keeps[of "s2\<lparr>INIT_STATE := True\<rparr>" s'] k1 k2 show ?thesis by auto
qed

section \<open>Claims\<close>

text \<open>
  C1, as amended. For every widget whose draw primitive exists and every \<open>w\<close> greater
  than \<^verbatim>\<open>width / 4\<close> that differs from the stored \<^verbatim>\<open>border_width\<close>: whenever the
  assignment \<^verbatim>\<open>border_width = w\<close> returns, the stored field and the stroke width of
  the line both equal \<^verbatim>\<open>width / 4\<close>; and it returns whenever \<^verbatim>\<open>width / 4\<close> is positive.
\<close>

theorem clamp_to_quarter_width:
  assumes "has_border s"
    and "py_div (width s) (PInt 4) = Inr m" and "py_gt w m"
    and "\<not> py_eq (border_width s) w"
  shows "(\<forall>s'. set_border_width w s = Inr s' \<longrightarrow>
            border_width s' = m \<and> map_option line_width (border_lines s') = Some m) \<and>
         (py_gt m (PInt 0) \<longrightarrow> (\<exists>s'. set_border_width w s = Inr s'))"
proof -
  from assms(1) obtain l where l: "border_lines s = Some l" and i: "INIT_STATE s"
    by (auto simp: has_border_def)
  let ?sa = "s\<lparr>border_width := w\<rparr>"
  have a: "set_border_width w s = on_border_width ?sa"
    using assms(4) by (simp add: set_border_width.simps)
  have over: "\<not> py_le (border_width ?sa) m"
    using assms(3) by (simp add: py_le_def py_gt_def)
  show ?thesis
  proof (cases "py_gt m (PInt 0)")
    case False
    from on_border_width_clamp_refused[of ?sa l m, OF _ _ _ over] i l assms(2) False
    have "on_border_width ?sa = Inl GraphicException" by simp
    with a False show ?thesis by simp
  next
    case True
    from on_border_width_clamp[of ?sa l m, OF _ _ _ over True] i l assms(2)
    obtain ox oy r where b: "on_border_width ?sa =
        on_border_width (?sa\<lparr>border_origin_x := ox, border_origin_y := oy,
          border_lines := Some (l\<lparr>line_rectangle := r, line_width := m\<rparr>),
          border_width := m\<rparr>)" (is "_ = on_border_width ?sb")
      by auto
    have "py_le (border_width ?sb) m" by (simp add: py_le_def)
    from on_border_width_within[of ?sb "l\<lparr>line_rectangle := r, line_width := m\<rparr>" m,
        OF _ _ _ this] i assms(2) True
    obtain ox' oy' r' where c: "on_border_width ?sb =
        Inr (?sb\<lparr>border_origin_x := ox', border_origin_y := oy',
          border_lines := Some (l\<lparr>line_rectangle := r', line_width := m\<rparr>)\<rparr>)"
      by auto
    from a b c show ?thesis by simp
  qed
qed

theorem clamp_to_quarter_width_witness:
  "has_border drawn_widget \<and>
   py_div (width drawn_widget) (PInt 4) = Inr (PInt 25) \<and> py_gt (PInt 30) (PInt 25) \<and>
   \<not> py_eq (border_width drawn_widget) (PInt 30) \<and> py_gt (PInt 25) (PInt 0) \<and>
   (\<exists>s'. set_border_width (PInt 30) drawn_widget = Inr s' \<and> border_width s' = PInt 25 \<and>
      map_option line_width (border_lines s') = Some (PInt 25))"
proof -
  have h: "has_border drawn_widget"
    "py_div (width drawn_widget) (PInt 4) = Inr (PInt 25)" "py_gt (PInt 30) (PInt 25)"
    "\<not> py_eq (border_width drawn_widget) (PInt 30)"
    by (simp_all add: drawn_widget_def has_border_def py_gt_def py_eq_def)
  have p: "py_gt (PInt 25) (PInt 0)" by (simp add: py_gt_def)
  from clamp_to_quarter_width[OF h] h p show ?thesis by auto
qed

text \<open>
  C1 as stated fails: on the resized widget the stored width 10 already exceeds
  \<^verbatim>\<open>width / 4 = 5\<close>; assigning 10 again changes nothing, no handler runs and 10
  stays.
\<close>

theorem clamp_counterexample:
  "run [OnSize, SetBorderWidth (PInt 10), SetSize (PInt 20, PInt 20)] default_widget
     = Inr resized_widget \<and>
   has_border resized_widget \<and>
   py_div (width resized_widget) (PInt 4) = Inr (PInt 5) \<and> py_gt (PInt 10) (PInt 5) \<and>
   set_border_width (PInt 10) resized_widget = Inr resized_widget \<and>
   border_width resized_widget = PInt 10 \<and> \<not> py_eq (PInt 10) (PInt 5) \<and>
   map_option line_width (border_lines resized_widget) = Some (PInt 10)"
  by (simp add: run_defs default_widget_def resized_widget_def)

text \<open>
  C2. On a constructed widget, every change of the position leaves the origin equal
  to the position plus the stored border width in both axes. On every change of
  \<^verbatim>\<open>border_width\<close> the handler first recomputes the origin as the position plus the
  new width in both axes; whenever the assignment returns, the origin equals the
  position plus the stored (possibly clamped) width, and it returns whenever the new
  width is within \<^verbatim>\<open>width / 4\<close> or \<^verbatim>\<open>width / 4\<close> is positive. With the draw primitive
  existing, the origin handler sets the rectangle of the line to
  \<open>[origin.x, origin.y, width - 2 * border_width, height - 2 * border_width]\<close>, and so
  does every position change that moves the origin.
\<close>

theorem origin_recomputed:
  assumes "border_inv s"
  shows "(\<not> (py_eq (pos_x s) (fst v) \<and> py_eq (pos_y s) (snd v)) \<longrightarrow>
            (\<exists>s'. set_pos v s = Inr s' \<and>
                  py_eq (pos_x s') (fst v) \<and> py_eq (pos_y s') (snd v) \<and>
                  border_width s' = border_width s \<and> origin_synced s')) \<and>
         (\<not> py_eq (border_width s) bw \<longrightarrow>
            (\<exists>s1. set_border_origin (s\<lparr>border_width := bw\<rparr>) = Inr s1 \<and>
                  pos_x s1 = pos_x s \<and> pos_y s1 = pos_y s \<and>
                  border_width s1 = bw \<and> origin_synced s1) \<and>
            (\<forall>s'. set_border_width bw s = Inr s' \<longrightarrow>
                  pos_x s' = pos_x s \<and> pos_y s' = pos_y s \<and> origin_synced s') \<and>
            (\<forall>m. py_div (width s) (PInt 4) = Inr m \<longrightarrow>
                  py_le bw m \<or> py_gt m (PInt 0) \<longrightarrow>
                  (\<exists>s'. set_border_width bw s = Inr s'))) \<and>
         (has_border s \<longrightarrow>
            (\<exists>s'. on__border_origin s = Inr s' \<and>
                  map_option line_rectangle (border_lines s') = Some (outline_rect s') \<and>
                  outline_rect s' = outline_rect s)) \<and>
         (has_border s \<longrightarrow> \<not> (py_eq (pos_x s) (fst v) \<and> py_eq (pos_y s) (snd v)) \<longrightarrow>
            (\<exists>s'. set_pos v s = Inr s' \<and>
                  (border_origin_x s' \<noteq> border_origin_x s \<or>
                   border_origin_y s' \<noteq> border_origin_y s \<longrightarrow>
                   map_option line_rectangle (border_lines s') = Some (outline_rect s'))))"
proof -
  have a: "\<exists>s'. set_pos v s = Inr s' \<and>
                  py_eq (pos_x s') (fst v) \<and> py_eq (pos_y s') (snd v) \<and>
                  border_width s' = border_width s \<and> origin_synced s'"
    if ch: "\<not> (py_eq (pos_x s) (fst v) \<and> py_eq (pos_y s) (snd v))"
  proof -
    let ?s1 = "s\<lparr>pos_x := (if py_eq (pos_x s) (fst v) then pos_x s else fst v),
                  pos_y := (if py_eq (pos_y s) (snd v) then pos_y s else snd v)\<rparr>"
    have "border_inv ?s1" using assms by (auto simp: border_inv_def split: if_splits)
    then obtain s' where s': "set_border_origin ?s1 = Inr s'"
      using set_border_origin_inv by blast
    have k: "pos_x s' = pos_x ?s1" "pos_y s' = pos_y ?s1" "border_width s' = border_width ?s1"
      using set_border_origin_keeps[OF s'] by auto
    have "set_pos v s = Inr s'" using ch s' by (auto simp: set_pos_def on_pos_def)
    with k set_border_origin_synced[OF s'] show ?thesis
      by (auto simp: py_eq_def)
  qed
  have b1: "\<exists>s1. set_border_origin (s\<lparr>border_width := bw\<rparr>) = Inr s1 \<and>
                  pos_x s1 = pos_x s \<and> pos_y s1 = pos_y s \<and>
                  border_width s1 = bw \<and> origin_synced s1"
  proof -
    have "border_inv (s\<lparr>border_width := bw\<rparr>)"
      using assms by (auto simp: border_inv_def split: if_splits)
    then obtain s1 where s1: "set_border_origin (s\<lparr>border_width := bw\<rparr>) = Inr s1"
      using set_border_origin_inv by blast
    from set_border_origin_keeps[OF s1] set_border_origin_synced[OF s1] s1
    show ?thesis by auto
  qed
  have b2: "pos_x s' = pos_x s \<and> pos_y s' = pos_y s \<and> origin_synced s'"
    if "\<not> py_eq (border_width s) bw" "set_border_width bw s = Inr s'" for s'
    using border_width_synced(2)[of bw s s'] that by simp
  have b3: "\<exists>s'. set_border_width bw s = Inr s'"
    if "py_div (width s) (PInt 4) = Inr m" "py_le bw m \<or> py_gt m (PInt 0)" for m
    using set_border_width_total[OF assms that] .
  have c: "\<exists>s'. on__border_origin s = Inr s' \<and>
                  map_option line_rectangle (border_lines s') = Some (outline_rect s') \<and>
                  outline_rect s' = outline_rect s"
    if hb: "has_border s"
    using hb by (auto simp: has_border_def on_origin_INIT update_borders_eq outline_rect_def)
  have d: "\<exists>s'. set_pos v s = Inr s' \<and>
                  (border_origin_x s' \<noteq> border_origin_x s \<or>
                   border_origin_y s' \<noteq> border_origin_y s \<longrightarrow>
                   map_option line_rectangle (border_lines s') = Some (outline_rect s'))"
    if hb: "has_border s" and ch: "\<not> (py_eq (pos_x s) (fst v) \<and> py_eq (pos_y s) (snd v))"
  proof -
    let ?s1 = "s\<lparr>pos_x := (if py_eq (pos_x s) (fst v) then pos_x s else fst v),
                  pos_y := (if py_eq (pos_y s) (snd v) then pos_y s else snd v)\<rparr>"
    have "border_inv ?s1" using assms by (auto simp: border_inv_def split: if_splits)
    then obtain s' where s': "set_border_origin ?s1 = Inr s'"
      using set_border_origin_inv by blast
    have sp: "set_pos v s = Inr s'" using ch s' by (auto simp: set_pos_def on_pos_def)
    from hb obtain l where "INIT_STATE ?s1" "border_lines ?s1 = Some l"
      by (auto simp: has_border_def)
    from set_border_origin_rect[OF this s'] sp show ?thesis by auto
  qed
  from a b1 b2 b3 c d show ?thesis by blast
qed

theorem origin_recomputed_witness:
  "border_inv drawn_widget \<and> has_border drawn_widget \<and>
   \<not> (py_eq (pos_x drawn_widget) (PInt 5) \<and> py_eq (pos_y drawn_widget) (PInt 5)) \<and>
   \<not> py_eq (border_width drawn_widget) (PInt 10) \<and>
   py_div (width drawn_widget) (PInt 4) = Inr (PInt 25) \<and> py_le (PInt 10) (PInt 25) \<and>
   (\<exists>s'. set_pos (PInt 5, PInt 5) drawn_widget = Inr s' \<and>
         py_eq (pos_x s') (PInt 5) \<and> py_eq (pos_y s') (PInt 5) \<and> origin_synced s' \<and>
         border_origin_x s' \<noteq> border_origin_x drawn_widget \<and>
         map_option line_rectangle (border_lines s') = Some (outline_rect s')) \<and>
   (\<exists>s1. set_border_origin (drawn_widget\<lparr>border_width := PInt 10\<rparr>) = Inr s1 \<and>
         border_width s1 = PInt 10 \<and> origin_synced s1) \<and>
   (\<exists>s'. set_border_width (PInt 10) drawn_widget = Inr s' \<and> origin_synced s') \<and>
   (\<exists>s'. on__border_origin drawn_widget = Inr s' \<and>
         map_option line_rectangle (border_lines s') = Some (outline_rect s'))"
proof -
  have i: "border_inv drawn_widget"
    by (simp add: border_inv_def drawn_widget_def)
  have h: "has_border drawn_widget"
    "\<not> (py_eq (pos_x drawn_widget) (PInt 5) \<and> py_eq (pos_y drawn_widget) (PInt 5))"
    "\<not> py_eq (border_width drawn_widget) (PInt 10)"
    "py_div (width drawn_widget) (PInt 4) = Inr (PInt 25)" "py_le (PInt 10) (PInt 25)"
    by (simp_all add: has_border_def drawn_widget_def py_eq_def py_le_def)
  have m: "set_pos (PInt 5, PInt 5) drawn_widget = Inr t \<Longrightarrow>
      border_origin_x t \<noteq> border_origin_x drawn_widget" for t
    by (auto simp: run_defs drawn_widget_def)
  note th = origin_recomputed[OF i, of "(PInt 5, PInt 5)" "PInt 10"]
  from th h obtain s' where s': "set_border_width (PInt 10) drawn_widget = Inr s'"
    by blast
  with th h have sy: "origin_synced s'" by blast
  from th i h m s' sy show ?thesis by auto
qed

text \<open>
  C3, as amended. On a constructed widget, invoking the position-change handler
  twice in a row changes nothing the second time; and when the border width is
  zero, invoking the size-change handler twice in a row changes nothing the second
  time, nor does the position-change handler after it. Every invocation of the
  size-change handler returns with the position moved by the border width in both
  axes and with the origin equal to the new position plus the border width.
\<close>

theorem sync_idempotent:
  assumes "border_inv s"
  shows "(\<exists>s1. on_pos s = Inr s1 \<and> on_pos s1 = Inr s1) \<and>
         (py_eq (border_width s) (PInt 0) \<longrightarrow>
            (\<exists>s1. on_size s = Inr s1 \<and> on_size s1 = Inr s1 \<and> on_pos s1 = Inr s1)) \<and>
         (\<exists>s1. on_size s = Inr s1 \<and>
               val (pos_x s1) = val (pos_x s) + val (border_width s) \<and>
               val (pos_y s1) = val (pos_y s) + val (border_width s) \<and>
               border_width s1 = border_width s \<and> origin_synced s1)"
proof -
  obtain s1 where s1: "set_border_origin s = Inr s1" "border_inv s1"
    using set_border_origin_inv[OF assms] by blast
  have sy: "origin_synced s1" using s1(1) by (rule set_border_origin_synced)
  have a: "\<exists>s1. on_pos s = Inr s1 \<and> on_pos s1 = Inr s1"
    using s1(1) synced_set_border_origin[OF sy] by (simp add: on_pos_def)
  have b: "\<exists>s1. on_size s = Inr s1 \<and> on_size s1 = Inr s1 \<and> on_pos s1 = Inr s1"
    if z: "py_eq (border_width s) (PInt 0)"
  proof -
    have bw: "border_width s1 = border_width s"
      using set_border_origin_keeps[OF s1(1)] by simp
    have stay: "set_pos (border_origin_x t, border_origin_y t) t = Inr t"
      if "origin_synced t" "py_eq (border_width t) (PInt 0)" for t
      using that by (simp add: set_pos_def origin_synced_def py_eq_def val_py_add)
    have p1: "set_pos (border_origin_x s1, border_origin_y s1) s1 = Inr s1"
      using stay[OF sy] z bw by simp
    obtain s2 where s2: "on_size s = Inr s2" "border_inv s2" "INIT_STATE s2"
      using on_size_inv[OF assms] by blast
    have k: "origin_synced s2 \<and> border_width s2 = border_width s1"
    proof (cases "INIT_STATE s1")
      case True
      with s1 p1 s2 sy show ?thesis by (simp add: on_size_def)
    next
      case False
      with s1 p1 s2 have d: "draw_border (s1\<lparr>INIT_STATE := True\<rparr>) = Inr s2"
        by (simp add: on_size_def)
      from draw_border_synced[OF d] draw_border_keeps[OF d] sy show ?thesis
        by (simp add: origin_synced_def)
    qed
    then have q: "origin_synced s2" "py_eq (border_width s2) (PInt 0)"
      using z bw by simp_all
    have "on_size s2 = Inr s2"
      using synced_set_border_origin[OF q(1)] stay[OF q] s2(3) by (simp add: on_size_def)
    moreover have "on_pos s2 = Inr s2"
      using synced_set_border_origin[OF q(1)] by (simp add: on_pos_def)
    ultimately show ?thesis using s2(1) by simp
  qed
  have c: "\<exists>s1. on_size s = Inr s1 \<and>
               val (pos_x s1) = val (pos_x s) + val (border_width s) \<and>
               val (pos_y s1) = val (pos_y s) + val (border_width s) \<and>
               border_width s1 = border_width s \<and> origin_synced s1"
    using on_size_inv[OF assms] on_size_shift on_size_synced on_size_keeps_width by blast
  from a b c show ?thesis by blast
qed

theorem sync_idempotent_witness:
  "run [SetBorderWidth (PInt 0)] default_widget = Inr zero_widget \<and>
   border_inv zero_widget \<and> py_eq (border_width zero_widget) (PInt 0) \<and>
   (\<exists>s1. on_pos zero_widget = Inr s1 \<and> on_pos s1 = Inr s1) \<and>
   (\<exists>s1. on_size zero_widget = Inr s1 \<and> on_size s1 = Inr s1 \<and> on_pos s1 = Inr s1)"
proof -
  have r: "run [SetBorderWidth (PInt 0)] default_widget = Inr zero_widget"
    by (simp add: run_defs default_widget_def zero_widget_def)
  have i: "border_inv zero_widget"
    by (simp add: border_inv_def default_widget_def zero_widget_def)
  have z: "py_eq (border_width zero_widget) (PInt 0)"
    by (simp add: zero_widget_def py_eq_def)
  from sync_idempotent[OF i] r i z show ?thesis by simp
qed

text \<open>
  C3 as stated fails: with the default border width \<open>1.0\<close>, each \<^verbatim>\<open>on_size\<close> assigns the
  origin to \<^verbatim>\<open>pos\<close>, which moves the widget by the border width and the origin with
  it. A second \<^verbatim>\<open>on_size\<close> on the drawn default widget moves the position from
  \<open>(1, 1)\<close> to \<open>(2, 2)\<close> and the rectangle from \<open>(2, 2)\<close> to \<open>(3, 3)\<close>.
\<close>

theorem on_size_drifts:
  "on_size default_widget = Inr drawn_widget \<and>
   on_size drawn_widget =
     Inr (drawn_widget\<lparr>pos_x := PFloat 2, pos_y := PFloat 2,
            border_origin_x := PFloat 3, border_origin_y := PFloat 3,
            border_lines := Some
              \<lparr>line_rectangle = [PFloat 3, PFloat 3, PFloat 98, PFloat 98],
               line_width = PFloat 1, line_cap = ''square'', line_joint = ''miter'',
               line_dash_length = 1, line_dash_offset = 0\<rparr>\<rparr>) \<and>
   on_size drawn_widget \<noteq> Inr drawn_widget \<and>
   pos_x drawn_widget = PFloat 1 \<and>
   map_option line_rectangle (border_lines drawn_widget)
     = Some [PFloat 2, PFloat 2, PFloat 98, PFloat 98]"
  by (simp add: run_defs default_widget_def drawn_widget_def)





text \<open>
  C6, as amended. On a constructed widget, an assignment of \<open>(w, style, color)\<close> to
  \<^verbatim>\<open>borders\<close> that changes the aggregate, with a known style and \<open>w\<close> not above
  \<^verbatim>\<open>width / 4\<close>, decomposes it in the order width, style, color: reading back gives
  \<open>w\<close>, the style, the color (a number or color that was equal by value before
  keeps its stored representation), and the dash parameters of the style.
\<close>

theorem borders_round_trip:
  assumes "border_inv s" and "dash_styles st \<noteq> None"
    and "py_div (width s) (PInt 4) = Inr m" and "py_le bw m"
    and "case borders s of None \<Rightarrow> True | Some old \<Rightarrow> \<not> borders_eq old (bw, st, c)"
  shows "\<exists>s'. set_borders (bw, st, c) s = Inr s' \<and>
           py_eq (border_width s') bw \<and>
           (\<not> py_eq (border_width s) bw \<longrightarrow> border_width s' = bw) \<and>
           border_style s' = Some st \<and>
           py_eq_list (border_color s') c \<and>
           (\<not> py_eq_list (border_color s) c \<longrightarrow> border_color s' = c) \<and>
           cur_dash_style s' = dash_styles st"
proof -
  let ?s0 = "s\<lparr>borders := Some (bw, st, c)\<rparr>"
  have a: "set_borders (bw, st, c) s = on_borders (bw, st, c) ?s0"
    using assms(5) by (auto simp: set_borders_def split: option.splits)
  have i0: "border_inv ?s0" using assms(1) by (auto simp: border_inv_def split: if_splits)
  from set_border_width_unclamped[OF i0, of m bw] assms(3,4)
  obtain t1 where t1: "set_border_width bw ?s0 = Inr t1" "border_inv t1"
    "py_eq (border_width t1) bw" "\<not> py_eq (border_width s) bw \<longrightarrow> border_width t1 = bw"
    "border_color t1 = border_color s"
    by auto
  from assms(2) obtain d where d: "dash_styles st = Some d" by auto
  let ?s3 = "(set_border_color c (t1\<lparr>border_style := Some st\<rparr>))\<lparr>cur_dash_style := Some d\<rparr>"
  have i3: "border_inv ?s3" using t1(2) by (auto simp: border_inv_def split: if_splits)
  obtain s' where s': "set_border_origin ?s3 = Inr s'"
    using set_border_origin_inv[OF i3] by blast
  have k: "border_width s' = border_width t1" "border_style s' = Some st"
    "border_color s' = border_color (set_border_color c (t1\<lparr>border_style := Some st\<rparr>))"
    "cur_dash_style s' = Some d"
    using set_border_origin_keeps[OF s'] by auto
  have col: "py_eq_list (border_color s') c"
    "\<not> py_eq_list (border_color s) c \<longrightarrow> border_color s' = c"
    using k(3) t1(5) by (simp_all add: set_border_color_def py_eq_list_def)
  have "on_borders (bw, st, c) ?s0 = Inr s'"
    using t1(1) d s' by (simp add: on_borders_def Let_def)
  with a k t1 d col show ?thesis by simp
qed

theorem borders_round_trip_witness:
  "border_inv default_widget \<and> dash_styles ''dashed'' \<noteq> None \<and>
   py_div (width default_widget) (PInt 4) = Inr (PInt 25) \<and> py_le (PInt 5) (PInt 25) \<and>
   borders default_widget = None \<and>
   (\<exists>s'. set_borders (PInt 5, ''dashed'', [PInt 1, PInt 0, PInt 0, PInt 1]) default_widget = Inr s' \<and>
         border_width s' = PInt 5 \<and> border_style s' = Some ''dashed'' \<and>
         border_color s' = [PInt 1, PInt 0, PInt 0, PInt 1] \<and>
         cur_dash_style s' = Some \<lparr>dash_length = 10, dash_offset = 5\<rparr>)"
proof -
  have h: "border_inv default_widget" "dash_styles ''dashed'' \<noteq> None"
    "py_div (width default_widget) (PInt 4) = Inr (PInt 25)" "py_le (PInt 5) (PInt 25)"
    "case borders default_widget of None \<Rightarrow> True
     | Some old \<Rightarrow> \<not> borders_eq old (PInt 5, ''dashed'', [PInt 1, PInt 0, PInt 0, PInt 1])"
    by (simp_all add: border_inv_def default_widget_def dash_styles_def py_le_def)
  have n: "borders default_widget = None"
    "\<not> py_eq (border_width default_widget) (PInt 5)"
    "\<not> py_eq_list (border_color default_widget) [PInt 1, PInt 0, PInt 0, PInt 1]"
    "dash_styles ''dashed'' = Some \<lparr>dash_length = 10, dash_offset = 5\<rparr>"
    by (simp_all add: default_widget_def py_eq_def py_eq_list_def dash_styles_def)
  from borders_round_trip[OF h] h(1-4) n show ?thesis by auto
qed

text \<open>
  C6 as stated fails three times. On the widget of width 16 the width 5 exceeds
  \<^verbatim>\<open>width / 4 = 4\<close> and is clamped: \<^verbatim>\<open>border_width\<close> reads back 4. On the bordered
  widget the aggregate already holds the value, so assigning it again invokes
  nothing and \<^verbatim>\<open>border_width\<close> stays 3. With an unknown style the assignment raises
  KeyError.
\<close>

theorem borders_counterexample:
  "run [OnSize, SetSize (PInt 16, PInt 16)] default_widget = Inr small_widget \<and>
   set_borders (PInt 5, ''dashed'', [PInt 1, PInt 0, PInt 0, PInt 1]) small_widget =
     Inr (small_widget\<lparr>border_width := PInt 4, border_style := Some ''dashed'',
            border_color := [PInt 1, PInt 0, PInt 0, PInt 1],
            borders := Some (PInt 5, ''dashed'', [PInt 1, PInt 0, PInt 0, PInt 1]),
            cur_dash_style := Some \<lparr>dash_length = 10, dash_offset = 5\<rparr>,
            border_origin_x := PFloat 6, border_origin_y := PFloat 6,
            border_lines := Some
              \<lparr>line_rectangle = [PFloat 6, PFloat 6, PInt 8, PInt 8],
               line_width = PInt 4, line_cap = ''square'', line_joint = ''miter'',
               line_dash_length = 1, line_dash_offset = 0\<rparr>\<rparr>) \<and>
   \<not> py_eq (PInt 4) (PInt 5) \<and>
   run [SetBorders (PInt 5, ''dashed'', [PInt 1, PInt 0, PInt 0, PInt 1]),
        SetBorderWidth (PInt 3)] default_widget = Inr bordered_widget \<and>
   set_borders (PInt 5, ''dashed'', [PInt 1, PInt 0, PInt 0, PInt 1]) bordered_widget
     = Inr bordered_widget \<and>
   border_width bordered_widget = PInt 3 \<and> \<not> py_eq (PInt 3) (PInt 5) \<and>
   set_borders (PInt 5, ''wavy'', [PInt 1, PInt 0, PInt 0, PInt 1]) default_widget
     = Inl KeyError"
  by (simp add: run_defs default_widget_def small_widget_def bordered_widget_def)

text \<open>
  C7. Constructing the mixin with no configuration arguments yields
  \<open>border_width = 1.0\<close>, \<open>border_style = 'solid'\<close>, \<open>border_color = (1,1,1,1)\<close>, and no
  border draw primitive: nothing is in the draw layer and the flag is unset. The
  primitive appears with the first size-change or origin-change event.
\<close>

theorem construct_defaults:
  "\<exists>s. construct no_kwargs px py w h = Inr s \<and>
        border_width s = PFloat 1 \<and>
        border_style s = Some ''solid'' \<and>
        border_color s = [PInt 1, PInt 1, PInt 1, PInt 1] \<and>
        border_lines s = None \<and> border_color_instr s = None \<and>
        canvas_after s = [] \<and> \<not> INIT_STATE s \<and>
        (\<exists>s'. on_size s = Inr s' \<and> has_border s') \<and>
        (\<exists>s'. on__border_origin s = Inr s' \<and> has_border s')"
proof -
  let ?s = "(new_widget px py w h)\<lparr>border_style := Some ''solid'',
              cur_dash_style := Some \<lparr>dash_length = 1, dash_offset = 0\<rparr>\<rparr>"
  have c: "construct no_kwargs px py w h = Inr ?s"
    by (simp add: run_defs)
  have i: "border_inv ?s"
    by (rule new_widget_inv_after_init)
  have f: "border_width ?s = PFloat 1" "border_style ?s = Some ''solid''"
    "border_color ?s = [PInt 1, PInt 1, PInt 1, PInt 1]"
    "border_lines ?s = None" "border_color_instr ?s = None"
    "canvas_after ?s = []" "\<not> INIT_STATE ?s"
    by (simp_all add: new_widget_def)
  obtain s1 where 1: "on_size ?s = Inr s1" "border_inv s1" "INIT_STATE s1"
    using on_size_inv[OF i] by blast
  obtain s2 where 2: "on__border_origin ?s = Inr s2" "border_inv s2" "INIT_STATE s2"
    using on_origin_inv[OF i] by blast
  have h1: "has_border s1" using 1 by (auto simp: has_border_def border_inv_def)
  have h2: "has_border s2" using 2 by (auto simp: has_border_def border_inv_def)
  show ?thesis
    apply (rule exI[where x="?s"])
    using c f 1(1) 2(1) h1 h2 by blast
qed

text \<open>
  C8. At most one drawn border (a color instruction and a line) is ever created. A
  constructed widget has none; after any run of events the draw layer holds either
  nothing or exactly the one color instruction and the one line, together with the
  flag; a size-change or an origin-change event creates them if they are missing;
  and once they exist no event adds to the draw layer again: every later operation
  updates the existing line.
\<close>

theorem single_drawn_border:
  assumes "construct kw px py w h = Inr s0" and "run es s0 = Inr s"
  shows "canvas_after s0 = [] \<and> border_lines s0 = None \<and>
         canvas_after s = (if INIT_STATE s then [ColorInstr, LineInstr] else []) \<and>
         INIT_STATE s = (border_lines s \<noteq> None) \<and>
         (\<exists>s'. on_size s = Inr s' \<and> has_border s' \<and>
               canvas_after s' = [ColorInstr, LineInstr]) \<and>
         (\<exists>s'. on__border_origin s = Inr s' \<and> has_border s' \<and>
               canvas_after s' = [ColorInstr, LineInstr]) \<and>
         (\<forall>e s'. INIT_STATE s \<longrightarrow> fire e s = Inr s' \<longrightarrow>
               has_border s' \<and> canvas_after s' = canvas_after s)"
proof -
  from construct_inv[OF assms(1)] have i0: "border_inv s0" "\<not> INIT_STATE s0" by auto
  then have a: "canvas_after s0 = [] \<and> border_lines s0 = None"
    by (simp add: border_inv_def)
  from run_inv[OF i0(1) assms(2)] have i: "border_inv s" by simp
  then have b: "canvas_after s = (if INIT_STATE s then [ColorInstr, LineInstr] else [])"
    "INIT_STATE s = (border_lines s \<noteq> None)"
    by (auto simp: border_inv_def split: if_splits)
  have drawn: "has_border t \<and> canvas_after t = [ColorInstr, LineInstr]"
    if "border_inv t" "INIT_STATE t" for t
    using that by (simp add: border_inv_def has_border_def)
  from on_size_inv[OF i] drawn
  have c: "\<exists>s'. on_size s = Inr s' \<and> has_border s' \<and> canvas_after s' = [ColorInstr, LineInstr]"
    by blast
  from on_origin_inv[OF i] drawn
  have d: "\<exists>s'. on__border_origin s = Inr s' \<and> has_border s' \<and>
               canvas_after s' = [ColorInstr, LineInstr]"
    by blast
  have e: "has_border s' \<and> canvas_after s' = canvas_after s"
    if "INIT_STATE s" "fire e s = Inr s'" for e s'
    using fire_inv[OF i that(2)] that(1) drawn[of s'] drawn[OF i] by simp
  from a b c d e show ?thesis by blast
qed

theorem single_drawn_border_witness:
  "construct no_kwargs (PInt 0) (PInt 0) (PInt 100) (PInt 100) = Inr default_widget \<and>
   run [OnSize] default_widget = Inr drawn_widget \<and>
   canvas_after default_widget = [] \<and> border_lines default_widget = None \<and>
   canvas_after drawn_widget = [ColorInstr, LineInstr] \<and>
   INIT_STATE drawn_widget \<and>
   (\<exists>s'. on_size drawn_widget = Inr s' \<and> has_border s' \<and>
         canvas_after s' = [ColorInstr, LineInstr]) \<and>
   (\<exists>s'. fire (SetBorderWidth (PInt 10)) drawn_widget = Inr s' \<and> has_border s' \<and>
         canvas_after s' = canvas_after drawn_widget)"
proof -
  have r: "run [OnSize] default_widget = Inr drawn_widget"
    by (simp add: on_size_default_widget)
  have i: "INIT_STATE drawn_widget" by (simp add: drawn_widget_def)
  have "border_inv drawn_widget" by (simp add: border_inv_def drawn_widget_def)
  then obtain t where t: "fire (SetBorderWidth (PInt 10)) drawn_widget = Inr t"
    using set_border_width_total[of drawn_widget "PInt 25" "PInt 10"]
    by (auto simp: drawn_widget_def py_le_def)
  note th = single_drawn_border[OF construct_default_widget r]
  from th have "\<forall>e s'. INIT_STATE drawn_widget \<longrightarrow> fire e drawn_widget = Inr s' \<longrightarrow>
      has_border s' \<and> canvas_after s' = canvas_after drawn_widget"
    by blast
  with i t have f: "has_border t \<and> canvas_after t = canvas_after drawn_widget"
    by blast
  from th i construct_default_widget r t f show ?thesis by simp
qed

text \<open>
  C9, as amended. For every style outside \<open>{'solid', 'dashed', 'dotted'}\<close>: supplied
  at construction as a non-empty string, construction raises, and with no
  \<^verbatim>\<open>border_width\<close> argument the error is the KeyError of the lookup in
  \<^verbatim>\<open>_dash_styles\<close>; supplied through \<^verbatim>\<open>borders\<close> (the handler, or an assignment that
  changes the aggregate), also as the empty string, the assignment raises, and the
  error is the KeyError of the lookup whenever the assignment of the width before
  it returns, as it does on a constructed widget when the width is within
  \<^verbatim>\<open>width / 4\<close> or \<^verbatim>\<open>width / 4\<close> is positive.
\<close>

theorem unknown_style_raises:
  assumes "st \<notin> {''solid'', ''dashed'', ''dotted''}"
  shows "(st \<noteq> [] \<longrightarrow> kw_border_style kw = Some st \<longrightarrow>
            (\<exists>e. construct kw px py w h = Inl e) \<and>
            (kw_border_width kw = None \<longrightarrow> construct kw px py w h = Inl KeyError)) \<and>
         (\<exists>e. on_borders (bw, st, c) s = Inl e) \<and>
         (\<forall>s1. set_border_width bw s = Inr s1 \<longrightarrow> on_borders (bw, st, c) s = Inl KeyError) \<and>
         ((case borders s of None \<Rightarrow> True | Some old \<Rightarrow> \<not> borders_eq old (bw, st, c)) \<longrightarrow>
            (\<exists>e. set_borders (bw, st, c) s = Inl e)) \<and>
         (border_inv s \<longrightarrow>
            (\<forall>m. py_div (width s) (PInt 4) = Inr m \<longrightarrow> py_le bw m \<or> py_gt m (PInt 0) \<longrightarrow>
               on_borders (bw, st, c) s = Inl KeyError \<and>
               ((case borders s of None \<Rightarrow> True | Some old \<Rightarrow> \<not> borders_eq old (bw, st, c)) \<longrightarrow>
                  set_borders (bw, st, c) s = Inl KeyError)))"
proof -
  note u = dash_styles_unknown[OF assms]
  have a: "construct kw px py w h = Inl KeyError"
    if "st \<noteq> []" "kw_border_style kw = Some st" "kw_border_width kw = None"
    using that u
    by (cases "kw_border_color kw")
       (simp_all add: construct_def base_init_def init_def set_border_width.simps
          new_widget_def py_eq_def Let_def)
  have a': "\<exists>e. construct kw px py w h = Inl e"
    if "st \<noteq> []" "kw_border_style kw = Some st"
    using that u
    by (auto simp: construct_def init_def Let_def split: sum.splits)
  have b: "\<exists>e. on_borders (bw, st, c) t = Inl e" for t
    using u by (auto simp: on_borders_def Let_def split: sum.splits)
  have b': "on_borders (bw, st, c) t = Inl KeyError" if "set_border_width bw t = Inr t1" for t t1
    using u that by (simp add: on_borders_def Let_def)
  have c: "\<exists>e. set_borders (bw, st, c) s = Inl e"
    if "case borders s of None \<Rightarrow> True | Some old \<Rightarrow> \<not> borders_eq old (bw, st, c)"
    using b[of "s\<lparr>borders := Some (bw, st, c)\<rparr>"] that
    by (auto simp: set_borders_def split: option.splits)
  have d: "on_borders (bw, st, c) s = Inl KeyError \<and>
           ((case borders s of None \<Rightarrow> True | Some old \<Rightarrow> \<not> borders_eq old (bw, st, c)) \<longrightarrow>
              set_borders (bw, st, c) s = Inl KeyError)"
    if inv: "border_inv s" and m: "py_div (width s) (PInt 4) = Inr m"
      and ok: "py_le bw m \<or> py_gt m (PInt 0)" for m
  proof -
    let ?s0 = "s\<lparr>borders := Some (bw, st, c)\<rparr>"
    have i0: "border_inv ?s0" using inv by (auto simp: border_inv_def split: if_splits)
    obtain t1 where t1: "set_border_width bw s = Inr t1"
      using set_border_width_total[OF inv m ok] by blast
    obtain t2 where t2: "set_border_width bw ?s0 = Inr t2"
      using set_border_width_total[OF i0 _ ok] m by auto
    from b'[OF t1] b'[OF t2] show ?thesis
      by (auto simp: set_borders_def split: option.splits)
  qed
  from a a' b b' c d show ?thesis by blast
qed

theorem unknown_style_raises_witness:
  "''wavy'' \<notin> {''solid'', ''dashed'', ''dotted''} \<and>
   construct (no_kwargs\<lparr>kw_border_style := Some ''wavy''\<rparr>) (PInt 0) (PInt 0) (PInt 100) (PInt 100)
     = Inl KeyError \<and>
   border_inv default_widget \<and> borders default_widget = None \<and>
   py_div (width default_widget) (PInt 4) = Inr (PInt 25) \<and> py_le (PInt 5) (PInt 25) \<and>
   (\<exists>s1. set_border_width (PInt 5) default_widget = Inr s1) \<and>
   on_borders (PInt 5, ''wavy'', [PInt 1, PInt 0, PInt 0, PInt 1]) default_widget = Inl KeyError \<and>
   set_borders (PInt 5, ''wavy'', [PInt 1, PInt 0, PInt 0, PInt 1]) default_widget = Inl KeyError"
proof -
  have h: "''wavy'' \<notin> {''solid'', ''dashed'', ''dotted''}" by simp
  have b: "borders default_widget = None"
    "py_div (width default_widget) (PInt 4) = Inr (PInt 25)" "py_le (PInt 5) (PInt 25)"
    by (simp_all add: default_widget_def py_le_def)
  have t: "\<exists>s1. set_border_width (PInt 5) default_widget = Inr s1"
    using set_border_width_total[OF default_widget_inv b(2)] b(3) by blast
  from unknown_style_raises[OF h, where kw = "no_kwargs\<lparr>kw_border_style := Some ''wavy''\<rparr>"
      and s = default_widget and bw = "PInt 5" and c = "[PInt 1, PInt 0, PInt 0, PInt 1]"
      and px = "PInt 0" and py = "PInt 0" and w = "PInt 100" and h = "PInt 100"]
    h b t default_widget_inv
  show ?thesis by (simp add: no_kwargs_def)
qed

text \<open>
  C9 as stated fails: the empty string is outside the three styles, and at
  construction \<^verbatim>\<open>border_style if border_style else 'solid'\<close> replaces it by
  \<open>'solid'\<close>; construction succeeds.
\<close>

theorem empty_style_defaults:
  "[] \<notin> {''solid'', ''dashed'', ''dotted''} \<and>
   construct (no_kwargs\<lparr>kw_border_style := Some []\<rparr>) (PInt 0) (PInt 0) (PInt 100) (PInt 100)
     = Inr default_widget \<and>
   border_style default_widget = Some ''solid''"
  by (simp add: run_defs default_widget_def)

text \<open>
  C10. \<^verbatim>\<open>BorderStyle(border_width=0)\<close> on a host widget at \<open>(0, 0)\<close>: the base constructor
  stores the zero; \<^verbatim>\<open>__init__\<close> then assigns the default \<open>1.0\<close>, the change moves the
  origin, and \<^verbatim>\<open>_draw_border\<close> reads \<^verbatim>\<open>cur_dash_style\<close> before \<^verbatim>\<open>__init__\<close> has assigned
  it. The constructor raises instead of storing \<open>1.0\<close>.
\<close>

theorem construct_zero_width_raises:
  "base_init (no_kwargs\<lparr>kw_border_width := Some (PInt 0)\<rparr>)
       (new_widget (PInt 0) (PInt 0) (PInt 100) (PInt 100)) =
     Inr ((new_widget (PInt 0) (PInt 0) (PInt 100) (PInt 100))\<lparr>border_width := PInt 0\<rparr>) \<and>
   init (no_kwargs\<lparr>kw_border_width := Some (PInt 0)\<rparr>)
       ((new_widget (PInt 0) (PInt 0) (PInt 100) (PInt 100))\<lparr>border_width := PInt 0\<rparr>) =
     Inl AttributeError \<and>
   construct (no_kwargs\<lparr>kw_border_width := Some (PInt 0)\<rparr>)
       (PInt 0) (PInt 0) (PInt 100) (PInt 100) = Inl AttributeError"
  by (simp add: run_defs)

end
